theory Spec2Isabelle
  imports Complex_Main "HOL-Library.Word"
begin

unbundle bit_operations_syntax

chapter \<open>The program\<close>

section \<open>Bytes, module images and faults\<close>

text \<open>
  The module that the patcher reads and writes is the mapped image of the host
  executable.  It is modelled as the list of its bytes: index \<open>k\<close> of the list is the
  byte at address \<open>lpBaseOfDll + k\<close>, and the list's length is \<open>SizeOfImage\<close>.  Every
  pointer into the module is kept as its offset from the module base, so the pointer
  differences the code computes are differences of offsets.

  C++ gives no meaning to a read or write outside the object, to signed overflow or
  to reading through a null pointer; the model makes each an explicit \<open>fault\<close>
  result, so that no theorem can rest on what such an execution would return.
\<close>

type_synonym byte = "8 word"

datatype fault = OutOfBounds | SignedOverflow | NullDereference


section \<open>Colour conversion (utils.cpp)\<close>

text \<open>
  A \<open>COLORREF\<close> is a \<open>DWORD\<close> laid out as \<open>0x00BBGGRR\<close>.  The accessor macros
  \<open>GetRValue\<close>, \<open>GetGValue\<close>, \<open>GetBValue\<close> and the constructor macro \<open>RGB\<close> come
  from the Windows headers; they are written out here with the casts they perform.
\<close>

type_synonym COLORREF = "32 word"

definition GetRValue :: "COLORREF \<Rightarrow> byte" where
  "GetRValue rgb = ucast rgb"

definition GetGValue :: "COLORREF \<Rightarrow> byte" where
  "GetGValue rgb = ucast (drop_bit 8 (ucast rgb :: 16 word))"

definition GetBValue :: "COLORREF \<Rightarrow> byte" where
  "GetBValue rgb = ucast (drop_bit 16 rgb)"

definition RGB :: "byte \<Rightarrow> byte \<Rightarrow> byte \<Rightarrow> COLORREF" where
  "RGB r g b = (ucast r OR ucast (push_bit 8 (ucast g :: 16 word))) OR push_bit 16 (ucast b)"

text \<open>
  Stream formatting used by \<open>colorref_to_hex\<close>: an \<open>int\<close> printed under
  \<open>std::uppercase << std::hex\<close>, then padded on the left by \<open>std::setw(2)\<close> and
  \<open>std::setfill('0')\<close>.
\<close>

definition hex_digit_upper :: "nat \<Rightarrow> char" where
  "hex_digit_upper d = ''0123456789ABCDEF'' ! d"

fun hex_of_nat :: "nat \<Rightarrow> string" where
  "hex_of_nat n = (if n < 16 then [hex_digit_upper n]
                   else hex_of_nat (n div 16) @ [hex_digit_upper (n mod 16)])"

declare hex_of_nat.simps [simp del]

definition setw_setfill :: "nat \<Rightarrow> char \<Rightarrow> string \<Rightarrow> string" where
  "setw_setfill w c s = replicate (w - length s) c @ s"

definition colorref_to_hex :: "COLORREF \<Rightarrow> string" where
  "colorref_to_hex color =
     CHR ''#'' # setw_setfill 2 CHR ''0'' (hex_of_nat (unat (GetRValue color)))
              @ setw_setfill 2 CHR ''0'' (hex_of_nat (unat (GetGValue color)))
              @ setw_setfill 2 CHR ''0'' (hex_of_nat (unat (GetBValue color)))"

text \<open>
  \<open>std::stoul(s, nullptr, 16)\<close> is the standard library's; it follows \<open>strtoul\<close>: white
  space is skipped, one sign is accepted, a \<open>0x\<close> or \<open>0X\<close> prefix is accepted when a
  hexadecimal digit follows it, and the longest run of hexadecimal digits is converted.
  No digit at all raises \<open>std::invalid_argument\<close>, a value that does not fit the 32-bit
  \<open>unsigned long\<close> raises \<open>std::out_of_range\<close>; both are the result \<open>None\<close>.  A
  leading minus sign negates the value in unsigned arithmetic.
\<close>

definition isspace :: "char \<Rightarrow> bool" where
  "isspace c = (c = CHR '' '' \<or> c = CHR 0x09 \<or> c = CHR 0x0A \<or> c = CHR 0x0B
                \<or> c = CHR 0x0C \<or> c = CHR 0x0D)"

definition hex_value :: "char \<Rightarrow> nat option" where
  "hex_value c =
     (let k = of_char c :: nat in
      if 48 \<le> k \<and> k \<le> 57 then Some (k - 48)
      else if 65 \<le> k \<and> k \<le> 70 then Some (k - 55)
      else if 97 \<le> k \<and> k \<le> 102 then Some (k - 87)
      else None)"

definition is_xdigit :: "char \<Rightarrow> bool" where
  "is_xdigit c = (hex_value c \<noteq> None)"

definition strip_sign :: "string \<Rightarrow> bool \<times> string" where
  "strip_sign s = (case s of
       c # cs \<Rightarrow> if c = CHR ''-'' then (True, cs)
                 else if c = CHR ''+'' then (False, cs) else (False, s)
     | [] \<Rightarrow> (False, s))"

definition strip_0x :: "string \<Rightarrow> string" where
  "strip_0x s = (case s of
       z # x # d # cs \<Rightarrow>
         if z = CHR ''0'' \<and> (x = CHR ''x'' \<or> x = CHR ''X'') \<and> is_xdigit d then d # cs else s
     | _ \<Rightarrow> s)"

definition digits_value :: "string \<Rightarrow> int" where
  "digits_value ds = foldl (\<lambda>acc c. acc * 16 + int (the (hex_value c))) 0 ds"

definition stoul16 :: "string \<Rightarrow> 32 word option" where
  "stoul16 str =
     (let (neg, body) = strip_sign (dropWhile isspace str);
          ds = takeWhile is_xdigit (strip_0x body)
      in if ds = [] then None
         else if digits_value ds \<ge> 2 ^ 32 then None
         else Some (if neg then - word_of_int (digits_value ds)
                    else word_of_int (digits_value ds)))"

text \<open>
  \<open>hex_to_colorref\<close>: the empty string is refused, one leading \<open>#\<close> is dropped, the
  rest must have length six, \<open>std::stoul\<close> parses it (any exception is caught and gives
  \<open>std::nullopt\<close>), and the three bytes are packed with \<open>RGB\<close>.
\<close>

definition hex_to_colorref :: "string \<Rightarrow> COLORREF option" where
  "hex_to_colorref hex =
     (if hex = [] then None
      else let clean_hex = (if hd hex = CHR ''#'' then tl hex else hex)
           in if length clean_hex \<noteq> 6 then None
              else case stoul16 clean_hex of
                     None \<Rightarrow> None
                   | Some v \<Rightarrow>
                       let r = ucast (drop_bit 16 v AND 0xFF) :: byte;
                           g = ucast (drop_bit 8 v AND 0xFF) :: byte;
                           b = ucast (v AND 0xFF) :: byte
                       in Some (RGB r g b))"


section \<open>Pattern scanner (utils.cpp, \<open>find_signatures\<close>)\<close>

text \<open>
  \<open>signature_t\<close> of utils.hpp: the pattern bytes and the mask string, in which
  \<open>?\<close> marks a wildcard position.
\<close>

record signature =
  pattern :: "byte list"
  mask_s :: string

text \<open>
  The host process as the patcher sees it.  \<open>GetModuleHandle_ok\<close> and
  \<open>GetModuleInformation_ok\<close> say whether the two Windows calls succeed;
  \<open>sections\<close> is the section table that \<open>IMAGE_FIRST_SECTION\<close> yields; \<open>image\<close> is
  the mapped module.
\<close>

record section_header =
  Name :: string
  VirtualAddress :: nat
  VirtualSize :: nat

record process =
  GetModuleHandle_ok :: bool
  GetModuleInformation_ok :: bool
  sections :: "section_header list"
  image :: "byte list"

text \<open>
  The inner loop of \<open>find_signatures\<close> over \<open>j\<close>, for the window at offset \<open>i\<close>.  The
  parameter \<open>W\<close> is the width of \<open>size_t\<close> in bits (64 in the 64-bit build, 32 in the
  32-bit build); \<open>i + j\<close> is computed in \<open>size_t\<close>.  \<open>mask[j]\<close> reads the string's
  buffer: position \<open>length\<close> holds the terminating zero, later positions are outside
  it.  The image byte is read only when the mask character is not \<open>?\<close>, as the
  short-circuit \<open>&&\<close> of the source does.
\<close>

function window_matches :: "nat \<Rightarrow> signature \<Rightarrow> byte list \<Rightarrow> nat \<Rightarrow> nat \<Rightarrow> fault + bool" where
  "window_matches W sg img i j =
     (if j < length (pattern sg) then
        (if length (mask_s sg) < j then Inl OutOfBounds
         else if (if j < length (mask_s sg) then mask_s sg ! j else CHR 0x00) \<noteq> CHR ''?'' then
           (if (i + j) mod 2 ^ W < length img then
              (if pattern sg ! j \<noteq> img ! ((i + j) mod 2 ^ W) then Inr False
               else window_matches W sg img i (j + 1))
            else Inl OutOfBounds)
         else window_matches W sg img i (j + 1))
      else Inr True)"
  by pat_completeness auto
termination
  by (relation "measure (\<lambda>(W, sg, img, i, j). length (pattern sg) - j)") auto

declare window_matches.simps [simp del]

text \<open>
  The outer loop \<open>for (size_t i = 0; i <= end - pattern_size; i++)\<close>.  The bound
  \<open>limit\<close> is computed once by the caller in \<open>size_t\<close>; \<open>i++\<close> wraps at \<open>2 ^ W\<close>, so
  with \<open>limit = 2 ^ W - 1\<close> the loop has no exit but a fault, and not returning is the
  value \<open>None\<close>.
\<close>

partial_function (option) scan_from ::
  "nat \<Rightarrow> signature \<Rightarrow> byte list \<Rightarrow> nat \<Rightarrow> nat \<Rightarrow> nat list \<Rightarrow> (fault + nat list) option" where
  "scan_from W sg img limit i occurrences =
     (if i \<le> limit then
        (case window_matches W sg img i 0 of
           Inl e \<Rightarrow> Some (Inl e)
         | Inr found \<Rightarrow>
             scan_from W sg img limit ((i + 1) mod 2 ^ W)
               (if found then occurrences @ [i] else occurrences))
      else Some (Inr occurrences))"

text \<open>
  \<open>find_signatures\<close>: an empty vector when the module handle or the module
  information cannot be obtained, otherwise the scan with the bound
  \<open>end - pattern_size\<close> taken in \<open>size_t\<close>.  The returned pointers \<open>start + i\<close> are the
  offsets \<open>i\<close>.
\<close>

definition find_signatures :: "nat \<Rightarrow> signature \<Rightarrow> process \<Rightarrow> (fault + nat list) option" where
  "find_signatures W sg p =
     (if \<not> GetModuleHandle_ok p then Some (Inr [])
      else if \<not> GetModuleInformation_ok p then Some (Inr [])
      else let size_of_image = length (image p);
               pattern_size = length (pattern sg)
           in scan_from W sg (image p)
                (nat ((int size_of_image - int pattern_size) mod 2 ^ W)) 0 [])"

text \<open>
  The match set in the words of the specification: offset \<open>i\<close> matches when the
  window \<open>[i, i + len)\<close> lies in the image and every non-wildcard byte of the pattern
  equals the image byte at \<open>i\<close> plus its position.
\<close>

definition spec_matches_at :: "signature \<Rightarrow> byte list \<Rightarrow> nat \<Rightarrow> bool" where
  "spec_matches_at sg img i =
     (i + length (pattern sg) \<le> length img \<and>
      (\<forall>j \<in> {0..<length (pattern sg)}.
          mask_s sg ! j \<noteq> CHR ''?'' \<longrightarrow> pattern sg ! j = img ! (i + j)))"




section \<open>Code cave allocator (utils.cpp, \<open>find_code_cave\<close>)\<close>

text \<open>
  The loop over the section table: every section whose name starts with the five
  characters \<open>.text\<close> (\<open>strncmp(Name, ".text", 5) == 0\<close>) sets \<open>ptr_text_end\<close> to
  \<open>VirtualAddress + VirtualSize\<close>; there is no \<open>break\<close>, so the last such section
  wins.  \<open>None\<close> is the initial \<open>nullptr\<close>.
\<close>

fun text_end :: "section_header list \<Rightarrow> nat option \<Rightarrow> nat option" where
  "text_end [] ptr_text_end = ptr_text_end"
| "text_end (s # ss) ptr_text_end =
     text_end ss (if take 5 (Name s) = ''.text''
                  then Some (VirtualAddress s + VirtualSize s) else ptr_text_end)"

text \<open>
  The loop \<open>for (int i = 0; i < size; ++i)\<close>: byte \<open>ptr_text_end[i]\<close> is read, a
  non-zero byte gives \<open>std::nullopt\<close> (the parameter \<open>size\<close> is written \<open>sz\<close>).  The counter is a 32-bit \<open>int\<close>: incrementing
  it at \<open>INT_MAX\<close> is signed overflow.
\<close>

function cave_is_zero :: "byte list \<Rightarrow> nat \<Rightarrow> nat \<Rightarrow> nat \<Rightarrow> fault + nat option" where
  "cave_is_zero img ptr_text_end sz i =
     (if i < sz then
        (if ptr_text_end + i < length img then
           (if img ! (ptr_text_end + i) \<noteq> 0 then Inr None
            else if i = 2 ^ 31 - 1 then Inl SignedOverflow
            else cave_is_zero img ptr_text_end sz (i + 1))
         else Inl OutOfBounds)
      else Inr (Some ptr_text_end))"
  by pat_completeness auto
termination
  by (relation "measure (\<lambda>(img, ptr_text_end, sz, i). sz - i)") auto

declare cave_is_zero.simps [simp del]

definition find_code_cave :: "section_header list \<Rightarrow> byte list \<Rightarrow> nat \<Rightarrow> fault + nat option" where
  "find_code_cave secs img sz =
     (case text_end secs None of
        None \<Rightarrow> Inr None
      | Some ptr_text_end \<Rightarrow> cave_is_zero img ptr_text_end sz 0)"


section \<open>Shellcode patcher (utils.cpp, \<open>apply_scroll_patch64\<close> and \<open>apply_scroll_patch32\<close>)\<close>

text \<open>
  \<open>VirtualProtect\<close> is a parameter of the patcher: for an address, a size and a new
  protection it says whether the call succeeds.  \<open>memcpy_s\<close> into the module replaces
  the bytes at the destination offset; a destination range that leaves the image is a
  fault.  \<open>le_bytes n v\<close> are the \<open>n\<close> low bytes of \<open>v\<close> in little-endian order, which
  is what copying the first \<open>n\<close> bytes of a pointer or of a \<open>ptrdiff_t\<close> yields.
\<close>

datatype protection = PAGE_EXECUTE_READ | PAGE_EXECUTE_READWRITE

definition memcpy_s :: "byte list \<Rightarrow> nat \<Rightarrow> byte list \<Rightarrow> fault + byte list" where
  "memcpy_s img dest src =
     (if dest + length src \<le> length img
      then Inr (take dest img @ src @ drop (dest + length src) img)
      else Inl OutOfBounds)"

fun le_bytes :: "nat \<Rightarrow> int \<Rightarrow> byte list" where
  "le_bytes 0 v = []"
| "le_bytes (Suc n) v = word_of_int v # le_bytes n (v div 256)"

text \<open>The thunks, with the address of \<open>scroll_value\<close> copied into the \<open>mov\<close>.\<close>

definition shellcode_multiply64 :: "nat \<Rightarrow> byte list" where
  "shellcode_multiply64 ptr_scroll_value =
     [0x51, 0x48, 0xB9] @ le_bytes 8 (int ptr_scroll_value)
       @ [0xF3, 0x0F, 0x10, 0x31, 0xF3, 0x0F, 0x59, 0xC6, 0x59, 0xC3]"

definition shellcode_multiply32 :: "nat \<Rightarrow> byte list" where
  "shellcode_multiply32 ptr_scroll_value =
     [0x50, 0xB8] @ le_bytes 4 (int ptr_scroll_value) @ [0xD8, 0x08, 0x58, 0xC3]"

text \<open>The relative call that replaces a call site, padded with \<open>nop\<close>.\<close>

definition shellcode_call64 :: "int \<Rightarrow> byte list" where
  "shellcode_call64 offset = [0xE8] @ le_bytes 4 offset @ [0x90, 0x90, 0x90]"

definition shellcode_call32 :: "int \<Rightarrow> byte list" where
  "shellcode_call32 offset = [0xE8] @ le_bytes 4 offset @ [0x90]"

definition sig_mulss1 :: signature where
  "sig_mulss1 = \<lparr>pattern = [0xF3, 0x0F, 0x59, 0x05, 0x00, 0x00, 0x00, 0x00, 0x0F, 0x28, 0xF2,
                             0xF3, 0x0F, 0x5C, 0xF0, 0x0F, 0x2F, 0xCE],
                  mask_s = ''xxxx????xxxxxxxxxx''\<rparr>"

definition sig_mulss2 :: signature where
  "sig_mulss2 = \<lparr>pattern = [0xF3, 0x0F, 0x59, 0x05, 0x00, 0x00, 0x00, 0x00, 0xF3, 0x0F, 0x10,
                             0x94, 0x00, 0x00, 0x00, 0x00, 0x00, 0x0F, 0x28, 0xF2],
                  mask_s = ''xxxx????xxxx?????xxx''\<rparr>"

definition sig_fmul1 :: signature where
  "sig_fmul1 = \<lparr>pattern = [0xD9, 0x00, 0x00, 0x00, 0xDB, 0x45, 0x00, 0xDC, 0x0D],
                 mask_s = ''x???xx?xx''\<rparr>"

definition sig_fmul2 :: signature where
  "sig_fmul2 = \<lparr>pattern = [0xD9, 0x00, 0x00, 0x00, 0x00, 0x00, 0x00, 0xDB, 0x45, 0x00,
                            0xDC, 0x0D],
                 mask_s = ''x??????xx?xx''\<rparr>"

text \<open>
  \<open>apply_scroll_patch64\<close>.  The result is the returned \<open>bool\<close> together with the
  module image as the call leaves it.  The steps are those of the source, in its
  order: the module handle, the thunk, the code cave, the two \<open>VirtualProtect\<close> calls
  around the copy of the thunk, the two scans (of the image that now holds the thunk),
  the count of the merged matches, the \<open>VirtualProtect\<close> calls on the two call sites,
  the two rewrites and the last \<open>VirtualProtect\<close> calls.
\<close>

definition apply_scroll_patch64 ::
  "(nat \<Rightarrow> nat \<Rightarrow> protection \<Rightarrow> bool) \<Rightarrow> process \<Rightarrow> nat \<Rightarrow> (fault + bool \<times> byte list) option" where
  "apply_scroll_patch64 VirtualProtect p ptr_scroll_value =
     (if \<not> GetModuleHandle_ok p then Some (Inr (False, image p))
      else
        let shellcode_multiply = shellcode_multiply64 ptr_scroll_value in
        (case find_code_cave (sections p) (image p) (length shellcode_multiply) of
          Inl e \<Rightarrow> Some (Inl e)
        | Inr None \<Rightarrow> Some (Inr (False, image p))
        | Inr (Some ptr_text_end) \<Rightarrow>
            if \<not> VirtualProtect ptr_text_end (length shellcode_multiply) PAGE_EXECUTE_READWRITE
            then Some (Inr (False, image p))
            else
              (case memcpy_s (image p) ptr_text_end shellcode_multiply of
                Inl e \<Rightarrow> Some (Inl e)
              | Inr img1 \<Rightarrow>
                  if \<not> VirtualProtect ptr_text_end (length shellcode_multiply) PAGE_EXECUTE_READ
                  then Some (Inr (False, img1))
                  else
                    (case find_signatures 64 sig_mulss1 (p\<lparr>image := img1\<rparr>) of
                      None \<Rightarrow> None
                    | Some (Inl e) \<Rightarrow> Some (Inl e)
                    | Some (Inr mulss1_occurrences) \<Rightarrow>
                        (case find_signatures 64 sig_mulss2 (p\<lparr>image := img1\<rparr>) of
                          None \<Rightarrow> None
                        | Some (Inl e) \<Rightarrow> Some (Inl e)
                        | Some (Inr mulss2_occurrences) \<Rightarrow>
                            let mulss_merged = mulss1_occurrences @ mulss2_occurrences in
                            if length mulss_merged \<noteq> 2 then Some (Inr (False, img1))
                            else
                              let mulss1 = mulss_merged ! 0;
                                  mulss2 = mulss_merged ! 1
                              in
                              if \<not> VirtualProtect mulss1 8 PAGE_EXECUTE_READWRITE
                                 \<or> \<not> VirtualProtect mulss2 8 PAGE_EXECUTE_READWRITE
                              then Some (Inr (False, img1))
                              else
                                (case memcpy_s img1 mulss1
                                       (shellcode_call64 (int ptr_text_end - (int mulss1 + 5))) of
                                  Inl e \<Rightarrow> Some (Inl e)
                                | Inr img2 \<Rightarrow>
                                    (case memcpy_s img2 mulss2
                                           (shellcode_call64 (int ptr_text_end - (int mulss2 + 5))) of
                                      Inl e \<Rightarrow> Some (Inl e)
                                    | Inr img3 \<Rightarrow>
                                        if \<not> VirtualProtect mulss1 8 PAGE_EXECUTE_READ
                                           \<or> \<not> VirtualProtect mulss2 8 PAGE_EXECUTE_READ
                                        then Some (Inr (False, img3))
                                        else Some (Inr (True, img3)))))))))"

text \<open>
  \<open>apply_scroll_patch32\<close>: the same steps with the 32-bit thunk, the \<open>fmul\<close>
  signatures, call sites at \<open>fmul_merged[0] + 7\<close> and \<open>fmul_merged[1] + 10\<close>, and a
  six-byte call.
\<close>

definition apply_scroll_patch32 ::
  "(nat \<Rightarrow> nat \<Rightarrow> protection \<Rightarrow> bool) \<Rightarrow> process \<Rightarrow> nat \<Rightarrow> (fault + bool \<times> byte list) option" where
  "apply_scroll_patch32 VirtualProtect p ptr_scroll_value =
     (if \<not> GetModuleHandle_ok p then Some (Inr (False, image p))
      else
        let shellcode_multiply = shellcode_multiply32 ptr_scroll_value in
        (case find_code_cave (sections p) (image p) (length shellcode_multiply) of
          Inl e \<Rightarrow> Some (Inl e)
        | Inr None \<Rightarrow> Some (Inr (False, image p))
        | Inr (Some ptr_text_end) \<Rightarrow>
            if \<not> VirtualProtect ptr_text_end (length shellcode_multiply) PAGE_EXECUTE_READWRITE
            then Some (Inr (False, image p))
            else
              (case memcpy_s (image p) ptr_text_end shellcode_multiply of
                Inl e \<Rightarrow> Some (Inl e)
              | Inr img1 \<Rightarrow>
                  if \<not> VirtualProtect ptr_text_end (length shellcode_multiply) PAGE_EXECUTE_READ
                  then Some (Inr (False, img1))
                  else
                    (case find_signatures 32 sig_fmul1 (p\<lparr>image := img1\<rparr>) of
                      None \<Rightarrow> None
                    | Some (Inl e) \<Rightarrow> Some (Inl e)
                    | Some (Inr fmul1_occurrences) \<Rightarrow>
                        (case find_signatures 32 sig_fmul2 (p\<lparr>image := img1\<rparr>) of
                          None \<Rightarrow> None
                        | Some (Inl e) \<Rightarrow> Some (Inl e)
                        | Some (Inr fmul2_occurrences) \<Rightarrow>
                            let fmul_merged = fmul1_occurrences @ fmul2_occurrences in
                            if length fmul_merged \<noteq> 2 then Some (Inr (False, img1))
                            else
                              let fmul1 = fmul_merged ! 0 + 7;
                                  fmul2 = fmul_merged ! 1 + 10
                              in
                              if \<not> VirtualProtect fmul1 6 PAGE_EXECUTE_READWRITE
                                 \<or> \<not> VirtualProtect fmul2 6 PAGE_EXECUTE_READWRITE
                              then Some (Inr (False, img1))
                              else
                                (case memcpy_s img1 fmul1
                                       (shellcode_call32 (int ptr_text_end - (int fmul1 + 5))) of
                                  Inl e \<Rightarrow> Some (Inl e)
                                | Inr img2 \<Rightarrow>
                                    (case memcpy_s img2 fmul2
                                           (shellcode_call32 (int ptr_text_end - (int fmul2 + 5))) of
                                      Inl e \<Rightarrow> Some (Inl e)
                                    | Inr img3 \<Rightarrow>
                                        if \<not> VirtualProtect fmul1 6 PAGE_EXECUTE_READ
                                           \<or> \<not> VirtualProtect fmul2 6 PAGE_EXECUTE_READ
                                        then Some (Inr (False, img3))
                                        else Some (Inr (True, img3)))))))))"


section \<open>Hook installation (\<open>hook_single_fn\<close>, \<open>apply_hooks\<close>)\<close>

text \<open>
  Modelled from the spec: the Detours transaction functions (\<open>DetourTransactionBegin\<close>,
  \<open>DetourUpdateThread\<close>, \<open>DetourAttach\<close>, \<open>DetourTransactionCommit\<close>) belong to the
  Detours library, which is not among the sources.  The specification says that a batch
  is installed by staging all redirections before making them globally visible in a
  single step.  Accordingly \<open>DetourAttach\<close> only stages a redirection in the open
  transaction, and \<open>DetourTransactionCommit\<close> makes the staged redirections active
  together.  Whether each call succeeds is a parameter (\<open>NO_ERROR\<close> is 0).  A
  function pointer is a number, 0 for \<open>nullptr\<close>; a redirection is the pair of the
  original function and its replacement.
\<close>

type_synonym PVOID = nat

definition NO_ERROR :: int where "NO_ERROR = 0"

record detours_results =
  DetourTransactionBegin_result :: int
  DetourUpdateThread_result :: int
  DetourAttach_result :: "PVOID \<Rightarrow> PVOID \<Rightarrow> int"
  DetourTransactionCommit_result :: int

record detours =
  staged :: "(PVOID \<times> PVOID) list"
  active :: "(PVOID \<times> PVOID) list"

text \<open>Modelled from the spec: opening a transaction, with nothing staged.\<close>

definition DetourTransactionBegin :: "detours_results \<Rightarrow> detours \<Rightarrow> int \<times> detours" where
  "DetourTransactionBegin env d =
     (if DetourTransactionBegin_result env = NO_ERROR
      then (NO_ERROR, d\<lparr>staged := []\<rparr>)
      else (DetourTransactionBegin_result env, d))"

text \<open>Modelled from the spec: staging one redirection; nothing becomes active.\<close>

definition DetourAttach :: "detours_results \<Rightarrow> detours \<Rightarrow> PVOID \<Rightarrow> PVOID \<Rightarrow> int \<times> detours" where
  "DetourAttach env d original hook =
     (if DetourAttach_result env original hook = NO_ERROR
      then (NO_ERROR, d\<lparr>staged := staged d @ [(original, hook)]\<rparr>)
      else (DetourAttach_result env original hook, d))"

text \<open>
  Modelled from the spec: the commit makes every staged redirection active in one
  step; a failing commit activates none.
\<close>

definition DetourTransactionCommit :: "detours_results \<Rightarrow> detours \<Rightarrow> int \<times> detours" where
  "DetourTransactionCommit env d =
     (if DetourTransactionCommit_result env = NO_ERROR
      then (NO_ERROR, d\<lparr>staged := [], active := active d @ staged d\<rparr>)
      else (DetourTransactionCommit_result env, d\<lparr>staged := []\<rparr>))"

text \<open>
  \<open>hook_single_fn\<close> of utils.cpp: a transaction around one \<open>DetourAttach\<close>; every
  failing step returns \<open>false\<close> at once.  \<open>o_fn\<close> is the value of the pointer behind
  the source's \<open>PVOID*\<close>.
\<close>

definition hook_single_fn :: "detours_results \<Rightarrow> detours \<Rightarrow> PVOID \<Rightarrow> PVOID \<Rightarrow> bool \<times> detours" where
  "hook_single_fn env d o_fn hk_fn =
     (case DetourTransactionBegin env d of (r0, d0) \<Rightarrow>
        if r0 \<noteq> NO_ERROR then (False, d0)
        else if DetourUpdateThread_result env \<noteq> NO_ERROR then (False, d0)
        else
          (case DetourAttach env d0 o_fn hk_fn of (r1, d1) \<Rightarrow>
             if r1 \<noteq> NO_ERROR then (False, d1)
             else
               (case DetourTransactionCommit env d1 of (r2, d2) \<Rightarrow>
                  if r2 \<noteq> NO_ERROR then (False, d2) else (True, d2))))"

text \<open>
  The loops of \<open>apply_hooks\<close> over a vector of hook records: a record whose original
  pointer is null is skipped, a failing \<open>DetourAttach\<close> returns \<open>false\<close> from
  \<open>apply_hooks\<close> at once.
\<close>

fun attach_all :: "detours_results \<Rightarrow> (PVOID \<times> PVOID) list \<Rightarrow> detours \<Rightarrow> bool \<times> detours" where
  "attach_all env [] d = (True, d)"
| "attach_all env ((original, hook) # hooks) d =
     (if original \<noteq> 0 then
        (case DetourAttach env d original hook of (r, d') \<Rightarrow>
           if r \<noteq> NO_ERROR then (False, d') else attach_all env hooks d')
      else attach_all env hooks d)"

text \<open>
  \<open>apply_hooks\<close>: the base hooks, then the theme hooks when the theme is enabled, then
  the commit.  The two vectors of hook records are parameters.
\<close>

definition apply_hooks ::
  "detours_results \<Rightarrow> (PVOID \<times> PVOID) list \<Rightarrow> (PVOID \<times> PVOID) list \<Rightarrow> bool \<Rightarrow> detours
     \<Rightarrow> bool \<times> detours" where
  "apply_hooks env hooks_base hooks_theme theme_enabled d =
     (case DetourTransactionBegin env d of (r0, d0) \<Rightarrow>
        if r0 \<noteq> NO_ERROR then (False, d0)
        else if DetourUpdateThread_result env \<noteq> NO_ERROR then (False, d0)
        else
          (case attach_all env hooks_base d0 of (ok1, d1) \<Rightarrow>
             if \<not> ok1 then (False, d1)
             else
               (case (if theme_enabled then attach_all env hooks_theme d1 else (True, d1)) of
                  (ok2, d2) \<Rightarrow>
                    if \<not> ok2 then (False, d2)
                    else
                      (case DetourTransactionCommit env d2 of (r3, d3) \<Rightarrow>
                         if r3 \<noteq> NO_ERROR then (False, d3) else (True, d3)))))"

text \<open>
  A sample of the library's answers for closed examples: every call succeeds, except
  the attach of the function at address 30.
\<close>

definition sample_DetourAttach_result :: "PVOID \<Rightarrow> PVOID \<Rightarrow> int" where
  "sample_DetourAttach_result original hook = (if original = 30 then 5 else 0)"

definition sample_detours_results :: detours_results where
  "sample_detours_results =
     \<lparr>DetourTransactionBegin_result = 0, DetourUpdateThread_result = 0,
      DetourAttach_result = sample_DetourAttach_result, DetourTransactionCommit_result = 0\<rparr>"


section \<open>Start-up (\<open>hk_CreateMutexA\<close>, \<open>mbox_error\<close>, \<open>setup_logging\<close>)\<close>

text \<open>
  What the start-up code does to the outside is recorded as a list of events; how a
  call ends is an outcome: it returns a value, or the process is terminated by
  \<open>exit\<close>, after which nothing of the caller runs.
\<close>

datatype event =
    MessageBox string
  | SPDLOG_ERROR string
  | Called_apply_hooks
  | Called_o_CreateMutexA

datatype 'a outcome = Returns 'a | Exits int

text \<open>
  \<open>mbox\<close> shows the message box and returns; \<open>mbox_error\<close> shows the box with the
  text prefixed by \<open>error: \<close> and then calls \<open>exit(1)\<close>.
\<close>

definition mbox :: "string \<Rightarrow> event list \<times> unit outcome" where
  "mbox msg = ([MessageBox msg], Returns ())"

definition mbox_error :: "string \<Rightarrow> event list \<times> unit outcome" where
  "mbox_error msg =
     (case mbox (''error: '' @ msg) of
        (events, Returns u) \<Rightarrow> (events, Exits 1)
      | (events, Exits c) \<Rightarrow> (events, Exits c))"

text \<open>
  What the collaborators of the start-up report: whether \<open>SHGetKnownFolderPath\<close>
  finds the documents folder, whether \<open>WideCharToMultiByte\<close> converts its path,
  whether the rotating logger is created, whether \<open>load_config\<close>, \<open>init_theme\<close> and
  \<open>apply_hooks\<close> succeed, and the handle the original \<open>CreateMutexA\<close> returns.
\<close>

record startup =
  SHGetKnownFolderPath_ok :: bool
  WideCharToMultiByte_ok :: bool
  rotating_logger_ok :: bool
  load_config :: bool
  init_theme :: bool
  apply_hooks_result :: bool
  o_CreateMutexA :: nat

text \<open>
  \<open>get_userprofile_path\<close> and \<open>wstr_to_str\<close> of utils.cpp, as far as the start-up
  depends on them: whether they return a value, and the error they log when they do
  not.  A logged event holds the format string of the \<open>SPDLOG_ERROR\<close> call.
\<close>

definition get_userprofile_path :: "startup \<Rightarrow> event list \<times> bool" where
  "get_userprofile_path env =
     (if \<not> SHGetKnownFolderPath_ok env
      then ([SPDLOG_ERROR ''SHGetKnownFolderPath failed: {}''], False)
      else ([], True))"

definition wstr_to_str :: "startup \<Rightarrow> event list \<times> bool" where
  "wstr_to_str env =
     (if \<not> WideCharToMultiByte_ok env
      then ([SPDLOG_ERROR ''failed to convert wstring to string''], False)
      else ([], True))"

text \<open>
  \<open>setup_logging\<close>.  After each \<open>mbox_error\<close> the outcome of that call is the outcome
  of \<open>setup_logging\<close>: the statements that follow in the source are reached only if
  \<open>mbox_error\<close> returns, which it never does.
\<close>

definition setup_logging :: "startup \<Rightarrow> event list \<times> unit outcome" where
  "setup_logging env =
     (case get_userprofile_path env of
        (ev0, found) \<Rightarrow>
          if \<not> found then
            (case mbox_error ''setup_logging: failed to get user profile path'' of
               (ev1, out) \<Rightarrow> (ev0 @ ev1, out))
          else
            (case wstr_to_str env of
               (ev1, converted) \<Rightarrow>
                 if \<not> converted then
                   (case mbox_error ''setup_logging: string conversion error'' of
                      (ev2, out) \<Rightarrow> (ev0 @ ev1 @ ev2, out))
                 else if \<not> rotating_logger_ok env then
                   (case mbox_error ''logger setup error:'' of
                      (ev2, out) \<Rightarrow> (ev0 @ ev1 @ ev2, out))
                 else (ev0 @ ev1, Returns ())))"

text \<open>
  \<open>hk_CreateMutexA\<close>.  The argument and the first component of the result are the flag
  \<open>init_entered\<close> before and after the call.  Each \<open>return o_CreateMutexA(...)\<close> that
  the source writes after \<open>mbox_error\<close> is kept as the branch for an \<open>mbox_error\<close>
  that returns.
\<close>

definition hk_CreateMutexA :: "startup \<Rightarrow> bool \<Rightarrow> bool \<times> event list \<times> nat outcome" where
  "hk_CreateMutexA env init_entered =
     (if \<not> init_entered then
        (case setup_logging env of
           (ev0, Exits c) \<Rightarrow> (True, ev0, Exits c)
         | (ev0, Returns u) \<Rightarrow>
             if \<not> load_config env then
               (case mbox_error ''failed to load config, check error log for more details'' of
                  (ev1, Exits c) \<Rightarrow>
                    (True, ev0 @ [SPDLOG_ERROR ''failed to load config''] @ ev1, Exits c)
                | (ev1, Returns u) \<Rightarrow>
                    (True, ev0 @ [SPDLOG_ERROR ''failed to load config''] @ ev1
                             @ [Called_o_CreateMutexA], Returns (o_CreateMutexA env)))
             else if \<not> init_theme env then
               (case mbox_error ''failed to init theme, check error log for more details'' of
                  (ev1, Exits c) \<Rightarrow>
                    (True, ev0 @ [SPDLOG_ERROR ''failed to init theme''] @ ev1, Exits c)
                | (ev1, Returns u) \<Rightarrow>
                    (True, ev0 @ [SPDLOG_ERROR ''failed to init theme''] @ ev1
                             @ [Called_o_CreateMutexA], Returns (o_CreateMutexA env)))
             else if \<not> apply_hooks_result env then
               (True, ev0 @ [Called_apply_hooks, SPDLOG_ERROR ''hooking failed'',
                             Called_o_CreateMutexA], Returns (o_CreateMutexA env))
             else
               (True, ev0 @ [Called_apply_hooks, Called_o_CreateMutexA],
                Returns (o_CreateMutexA env)))
      else (init_entered, [Called_o_CreateMutexA], Returns (o_CreateMutexA env)))"


section \<open>Client-area query (\<open>hk_GetClientRect\<close>)\<close>

text \<open>
  Windows are handles; \<open>std::wstring\<close> is a list of 16-bit characters.  The three class
  names are constants of \<open>window_manager\<close>, whose header is not among the sources: they
  are parameters.  \<open>GetClassNameW\<close> gives the characters copied into the buffer (the
  string after \<open>resize(len)\<close>), \<open>GetAncestor\<close> the parent for \<open>GA_PARENT\<close> (\<open>None\<close> for
  a null handle), \<open>o_GetClientRect\<close> the original function: from the handle and the
  rectangle behind \<open>lpRect\<close> it gives the returned \<open>BOOL\<close> and the rectangle it leaves
  there.
\<close>

type_synonym HWND = nat
type_synonym wstring = "16 word list"

record RECT =
  rect_left :: int
  rect_top :: int
  rect_right :: int
  rect_bottom :: int

record window_classnames =
  MAINWINDOW_CLASSNAME_UNICODE :: wstring
  WDB_CLASSNAME_UNICODE :: wstring
  COMPDENOISE_CLASSNAME_UNICODE :: wstring

record user32 =
  GetClassNameW :: "HWND \<Rightarrow> wstring"
  GetAncestor :: "HWND \<Rightarrow> HWND option"
  o_GetClientRect :: "HWND \<Rightarrow> RECT \<Rightarrow> bool \<times> RECT"

definition hk_GetClientRect ::
  "window_classnames \<Rightarrow> user32 \<Rightarrow> HWND \<Rightarrow> RECT \<Rightarrow> bool \<times> RECT" where
  "hk_GetClientRect wm os hWnd lpRect =
     (let class_name = GetClassNameW os hWnd in
      case GetAncestor os hWnd of
        None \<Rightarrow> o_GetClientRect os hWnd lpRect
      | Some parent_hwnd \<Rightarrow>
          let parent_class_name = GetClassNameW os parent_hwnd in
          if parent_class_name = MAINWINDOW_CLASSNAME_UNICODE wm then
            if class_name = WDB_CLASSNAME_UNICODE wm then
              (True, lpRect\<lparr>rect_left := 0, rect_top := 0, rect_right := 100, rect_bottom := 386\<rparr>)
            else if class_name = COMPDENOISE_CLASSNAME_UNICODE wm then
              (True, lpRect\<lparr>rect_left := 0, rect_top := 0, rect_right := 153, rect_bottom := 413\<rparr>)
            else o_GetClientRect os hWnd lpRect
          else o_GetClientRect os hWnd lpRect)"

text \<open>
  A sample desktop for closed examples: window 1 is the main window, windows 2, 3 and
  4 are its children of the two tool classes and of another class, and the original
  function reports a client area of 50 by 193 pixels for every window.
\<close>

definition sample_classnames :: window_classnames where
  "sample_classnames =
     \<lparr>MAINWINDOW_CLASSNAME_UNICODE = [0x4D], WDB_CLASSNAME_UNICODE = [0x57],
      COMPDENOISE_CLASSNAME_UNICODE = [0x43]\<rparr>"

definition sample_GetClassNameW :: "HWND \<Rightarrow> wstring" where
  "sample_GetClassNameW hWnd =
     (if hWnd = 1 then [0x4D] else if hWnd = 2 then [0x57] else if hWnd = 3 then [0x43]
      else [0x58])"

definition sample_GetAncestor :: "HWND \<Rightarrow> HWND option" where
  "sample_GetAncestor hWnd = (if hWnd = 1 then None else Some 1)"

definition sample_o_GetClientRect :: "HWND \<Rightarrow> RECT \<Rightarrow> bool \<times> RECT" where
  "sample_o_GetClientRect hWnd lpRect =
     (True, \<lparr>rect_left = 0, rect_top = 0, rect_right = 50, rect_bottom = 193\<rparr>)"

definition sample_user32 :: user32 where
  "sample_user32 =
     \<lparr>GetClassNameW = sample_GetClassNameW, GetAncestor = sample_GetAncestor,
      o_GetClientRect = sample_o_GetClientRect\<rparr>"


section \<open>Interactive resize (\<open>hk_WndProc_main\<close>, message \<open>WM_SIZING\<close>)\<close>

text \<open>
  The fields of the tracked window context that the branch reads; the context is
  declared in \<open>window_manager.hpp\<close>, which is not among the sources, and its two
  fields are taken with the \<open>int\<close> type of the \<open>MulDiv\<close> parameters they are passed
  as.  Division of C \<open>int\<close>s truncates towards zero.  \<open>max\<close> and \<open>min\<close> are the
  macros of the Windows headers.

  \<open>int\<close> and \<open>LONG\<close> are 32 bits wide.  \<open>int32\<close> is the value that the machine's
  two's complement arithmetic leaves for a sum or difference of two such values: the
  mathematical result when it fits, and the result wrapped around by \<open>2 ^ 32\<close> when it
  does not.
\<close>

definition int32 :: "int \<Rightarrow> int" where
  "int32 x = (x + 2 ^ 31) mod 2 ^ 32 - 2 ^ 31"







section \<open>Per-session process id (\<open>hk_GetProcessId\<close>)\<close>

text \<open>
  \<open>str_to_wstr\<close> of utils.cpp.  \<open>MultiByteToWideChar\<close> is a parameter: the wide
  characters it produces for a UTF-8 string, none when the call fails.  The first call
  only asks for the size; a size of zero, which is also what the empty string gives, is
  \<open>std::nullopt\<close>, and so is a second call that writes nothing.
\<close>

definition str_to_wstr :: "(string \<Rightarrow> wstring) \<Rightarrow> string \<Rightarrow> wstring option" where
  "str_to_wstr MultiByteToWideChar str =
     (let sz = length (MultiByteToWideChar str) in
      if sz = 0 then None
      else let res = MultiByteToWideChar str in
           if length res = 0 then None else Some res)"

text \<open>
  What \<open>hk_GetProcessId\<close> calls.  \<open>o_GetProcessId\<close> is the original method: from the
  session and the value behind \<open>pRetVal\<close> it gives the \<open>HRESULT\<close> and the value it
  leaves there.  \<open>QueryFullProcessImageName\<close> gives the image path of a process id
  (\<open>None\<close> when \<open>OpenProcess\<close> or the query fails), \<open>PathFindFileName\<close> its file
  name, \<open>app_blacklist\<close> is the configured denylist (\<open>None\<close> when absent), and
  \<open>lstrcmpiW\<close> is the system's case-insensitive comparison.
\<close>

type_synonym HRESULT = int
type_synonym DWORD = "32 word"

definition S_OK :: HRESULT where "S_OK = 0"
definition S_FALSE :: HRESULT where "S_FALSE = 1"

record audio_env =
  o_GetProcessId :: "nat \<Rightarrow> DWORD \<Rightarrow> HRESULT \<times> DWORD"
  QueryFullProcessImageName :: "DWORD \<Rightarrow> wstring option"
  PathFindFileName :: "wstring \<Rightarrow> wstring"
  app_blacklist :: "string list option"
  MultiByteToWideChar :: "string \<Rightarrow> wstring"
  lstrcmpiW :: "wstring \<Rightarrow> wstring \<Rightarrow> int"

definition get_exe_image_name_for_pid :: "audio_env \<Rightarrow> DWORD \<Rightarrow> wstring option" where
  "get_exe_image_name_for_pid env pid =
     (case QueryFullProcessImageName env pid of
        None \<Rightarrow> None
      | Some proc_name \<Rightarrow> Some (PathFindFileName env proc_name))"

text \<open>
  The loop over the denylist: an entry that cannot be converted ends the whole query
  with \<open>S_OK\<close> and the id unchanged; the first entry equal to the image name under
  \<open>lstrcmpiW\<close> writes 0 and gives \<open>S_FALSE\<close>.
\<close>

fun blacklist_loop :: "audio_env \<Rightarrow> string list \<Rightarrow> wstring \<Rightarrow> DWORD \<Rightarrow> HRESULT \<times> DWORD" where
  "blacklist_loop env [] app_name pRetVal = (S_OK, pRetVal)"
| "blacklist_loop env (s # blacklist) app_name pRetVal =
     (case str_to_wstr (MultiByteToWideChar env) s of
        None \<Rightarrow> (S_OK, pRetVal)
      | Some wstr \<Rightarrow>
          if lstrcmpiW env wstr app_name = 0 then (S_FALSE, 0)
          else blacklist_loop env blacklist app_name pRetVal)"

definition hk_GetProcessId :: "audio_env \<Rightarrow> nat \<Rightarrow> DWORD \<Rightarrow> HRESULT \<times> DWORD" where
  "hk_GetProcessId env this_ptr pRetVal0 =
     (let (hr, pRetVal) = o_GetProcessId env this_ptr pRetVal0 in
      if hr \<noteq> S_OK then (hr, pRetVal)
      else
        case get_exe_image_name_for_pid env pRetVal of
          None \<Rightarrow> (S_OK, pRetVal)
        | Some app_name \<Rightarrow>
            (case app_blacklist env of
               None \<Rightarrow> (S_OK, pRetVal)
             | Some blacklist \<Rightarrow> blacklist_loop env blacklist app_name pRetVal))"

text \<open>
  A sample environment for closed examples: a session whose process 1234 runs
  \<open>FOO.EXE\<close> from the root of drive C, a denylist holding the empty string and \<open>foo.exe\<close>, a conversion
  that widens each byte, and a comparison that ignores the case of ASCII letters.
\<close>

definition ascii_upper :: "16 word \<Rightarrow> 16 word" where
  "ascii_upper c = (if 0x61 \<le> c \<and> c \<le> 0x7A then c - 0x20 else c)"

definition sample_lstrcmpiW :: "wstring \<Rightarrow> wstring \<Rightarrow> int" where
  "sample_lstrcmpiW a b = (if map ascii_upper a = map ascii_upper b then 0 else 1)"

definition sample_MultiByteToWideChar :: "string \<Rightarrow> wstring" where
  "sample_MultiByteToWideChar s = map (\<lambda>c. of_nat (of_char c)) s"

definition sample_o_GetProcessId :: "nat \<Rightarrow> DWORD \<Rightarrow> HRESULT \<times> DWORD" where
  "sample_o_GetProcessId this_ptr pRetVal = (S_OK, 1234)"

definition sample_QueryFullProcessImageName :: "DWORD \<Rightarrow> wstring option" where
  "sample_QueryFullProcessImageName pid =
     (if pid = 1234 then Some (sample_MultiByteToWideChar (''C:'' @ [CHR 0x5C] @ ''FOO.EXE'')) else None)"

definition sample_PathFindFileName :: "wstring \<Rightarrow> wstring" where
  "sample_PathFindFileName path = rev (takeWhile (\<lambda>c. c \<noteq> 0x5C) (rev path))"

definition sample_audio_env :: "string list \<Rightarrow> audio_env" where
  "sample_audio_env blacklist =
     \<lparr>o_GetProcessId = sample_o_GetProcessId,
      QueryFullProcessImageName = sample_QueryFullProcessImageName,
      PathFindFileName = sample_PathFindFileName,
      app_blacklist = Some blacklist,
      MultiByteToWideChar = sample_MultiByteToWideChar,
      lstrcmpiW = sample_lstrcmpiW\<rparr>"


section \<open>Late hooks of the audio-session chain (\<open>hk_CoCreateInstance\<close>, \<open>hk_GetSessionEnumerator\<close>, \<open>hk_GetSession\<close>)\<close>

text \<open>
  The four function pointers \<open>o_GetSessionEnumerator\<close>, \<open>o_GetSession\<close>,
  \<open>o_GetProcessId\<close> and \<open>o_IsSystemSoundsSession\<close> start as \<open>nullptr\<close> (0) and are
  the dynamic hook slots.  The state holds them (with the suffix \<open>_ptr\<close>), the state
  of the hooking library, and a log of what the hooks did: reading an entry of a
  dispatch table, patching a slot with \<open>hook_single_fn\<close>, and passing the call on to
  the original function.
\<close>

datatype audio_slot =
    Slot_GetSessionEnumerator
  | Slot_GetSession
  | Slot_GetProcessId
  | Slot_IsSystemSoundsSession

datatype com_action = Read_vtable nat | Patched audio_slot | Passed_to_original

record audio_hooks =
  o_GetSessionEnumerator_ptr :: PVOID
  o_GetSession_ptr :: PVOID
  o_GetProcessId_ptr :: PVOID
  o_IsSystemSoundsSession_ptr :: PVOID
  detours_state :: detours
  actions :: "com_action list"

text \<open>
  What one call of a hook meets: whether the class and interface ids are those of the
  device enumerator, the \<open>hresult_error\<close> that \<open>check_hresult\<close> throws in this call
  (if any), the dispatch table of the object the call acquires, the answers of the
  hooking library, the pointer a committed attach leaves in the slot (the trampoline),
  the addresses of the hook functions, and the result of the original function.
\<close>

record com_results =
  clsid_is_MMDeviceEnumerator :: bool
  riid_is_IMMDeviceEnumerator :: bool
  hresult_error :: "HRESULT option"
  vtable :: "nat \<Rightarrow> PVOID"
  detours_answers :: detours_results
  trampoline :: "PVOID \<Rightarrow> PVOID"
  hk_address :: "audio_slot \<Rightarrow> PVOID"
  original_result :: HRESULT

text \<open>
  The pair of statements \<open>o_X = vtable[k]; utils::hook_single_fn(&o_X, hk_X);\<close>: the
  value the slot holds afterwards and the library state.  The result of
  \<open>hook_single_fn\<close> is ignored by the callers.
\<close>

definition late_hook :: "com_results \<Rightarrow> audio_slot \<Rightarrow> PVOID \<Rightarrow> detours \<Rightarrow> PVOID \<times> detours" where
  "late_hook env slot entry d =
     (case hook_single_fn (detours_answers env) d entry (hk_address env slot) of
        (ok, d') \<Rightarrow> (if ok then trampoline env entry else entry, d'))"

definition hk_CoCreateInstance :: "com_results \<Rightarrow> audio_hooks \<Rightarrow> fault + audio_hooks \<times> HRESULT" where
  "hk_CoCreateInstance env s =
     (if \<not> clsid_is_MMDeviceEnumerator env \<or> \<not> riid_is_IMMDeviceEnumerator env
         \<or> o_GetSessionEnumerator_ptr s \<noteq> 0
      then Inr (s\<lparr>actions := actions s @ [Passed_to_original]\<rparr>, original_result env)
      else
        (case hresult_error env of
           Some code \<Rightarrow> Inr (s, code)
         | None \<Rightarrow>
             (case late_hook env Slot_GetSessionEnumerator (vtable env 5) (detours_state s) of
                (ptr, d) \<Rightarrow>
                  Inr (s\<lparr>o_GetSessionEnumerator_ptr := ptr, detours_state := d,
                          actions := actions s @ [Read_vtable 5, Patched Slot_GetSessionEnumerator,
                                                  Passed_to_original]\<rparr>,
                       original_result env))))"

text \<open>
  In \<open>hk_GetSessionEnumerator\<close> and \<open>hk_GetSession\<close> the \<open>catch\<close> block only logs:
  the interface pointer is still null when its dispatch table is read.
\<close>

definition hk_GetSessionEnumerator :: "com_results \<Rightarrow> audio_hooks \<Rightarrow> fault + audio_hooks \<times> HRESULT" where
  "hk_GetSessionEnumerator env s =
     (if o_GetSession_ptr s \<noteq> 0
      then Inr (s\<lparr>actions := actions s @ [Passed_to_original]\<rparr>, original_result env)
      else
        (case hresult_error env of
           Some code \<Rightarrow> Inl NullDereference
         | None \<Rightarrow>
             (case late_hook env Slot_GetSession (vtable env 4) (detours_state s) of
                (ptr, d) \<Rightarrow>
                  Inr (s\<lparr>o_GetSession_ptr := ptr, detours_state := d,
                          actions := actions s @ [Read_vtable 4, Patched Slot_GetSession,
                                                  Passed_to_original]\<rparr>,
                       original_result env))))"

definition hk_GetSession :: "com_results \<Rightarrow> audio_hooks \<Rightarrow> fault + audio_hooks \<times> HRESULT" where
  "hk_GetSession env s =
     (if o_GetProcessId_ptr s \<noteq> 0 \<or> o_IsSystemSoundsSession_ptr s \<noteq> 0
      then Inr (s\<lparr>actions := actions s @ [Passed_to_original]\<rparr>, original_result env)
      else
        (case hresult_error env of
           Some code \<Rightarrow> Inl NullDereference
         | None \<Rightarrow>
             (case late_hook env Slot_GetProcessId (vtable env 14) (detours_state s) of
                (ptr1, d1) \<Rightarrow>
                  (case late_hook env Slot_IsSystemSoundsSession (vtable env 15) d1 of
                     (ptr2, d2) \<Rightarrow>
                       Inr (s\<lparr>o_GetProcessId_ptr := ptr1, o_IsSystemSoundsSession_ptr := ptr2,
                               detours_state := d2,
                               actions := actions s @ [Read_vtable 14, Patched Slot_GetProcessId,
                                                       Read_vtable 15,
                                                       Patched Slot_IsSystemSoundsSession,
                                                       Passed_to_original]\<rparr>,
                            original_result env)))))"

text \<open>
  The host calls the three hooked functions in any order; a run is a sequence of such
  calls, each with what it meets, and stops at the first fault.
\<close>

datatype com_call = CoCreateInstance_call | GetSessionEnumerator_call | GetSession_call

definition audio_step :: "com_call \<Rightarrow> com_results \<Rightarrow> audio_hooks \<Rightarrow> fault + audio_hooks \<times> HRESULT" where
  "audio_step c env s =
     (case c of
        CoCreateInstance_call \<Rightarrow> hk_CoCreateInstance env s
      | GetSessionEnumerator_call \<Rightarrow> hk_GetSessionEnumerator env s
      | GetSession_call \<Rightarrow> hk_GetSession env s)"

fun audio_run :: "(com_call \<times> com_results) list \<Rightarrow> audio_hooks \<Rightarrow> fault + audio_hooks" where
  "audio_run [] s = Inr s"
| "audio_run ((c, env) # calls) s =
     (case audio_step c env s of
        Inl e \<Rightarrow> Inl e
      | Inr (s', hr) \<Rightarrow> audio_run calls s')"

definition slot_ptr :: "audio_slot \<Rightarrow> audio_hooks \<Rightarrow> PVOID" where
  "slot_ptr k s =
     (case k of
        Slot_GetSessionEnumerator \<Rightarrow> o_GetSessionEnumerator_ptr s
      | Slot_GetSession \<Rightarrow> o_GetSession_ptr s
      | Slot_GetProcessId \<Rightarrow> o_GetProcessId_ptr s
      | Slot_IsSystemSoundsSession \<Rightarrow> o_IsSystemSoundsSession_ptr s)"

text \<open>
  The state at load time, and the property of a call's surroundings that the entries
  of a dispatch table and the trampolines are not null.
\<close>

definition audio_hooks_at_load :: audio_hooks where
  "audio_hooks_at_load =
     \<lparr>o_GetSessionEnumerator_ptr = 0, o_GetSession_ptr = 0, o_GetProcessId_ptr = 0,
      o_IsSystemSoundsSession_ptr = 0, detours_state = \<lparr>staged = [], active = []\<rparr>,
      actions = []\<rparr>"

definition pointers_not_null :: "com_results \<Rightarrow> bool" where
  "pointers_not_null env =
     (vtable env 4 \<noteq> 0 \<and> vtable env 5 \<noteq> 0 \<and> vtable env 14 \<noteq> 0 \<and> vtable env 15 \<noteq> 0
      \<and> trampoline env (vtable env 4) \<noteq> 0 \<and> trampoline env (vtable env 5) \<noteq> 0
      \<and> trampoline env (vtable env 14) \<noteq> 0 \<and> trampoline env (vtable env 15) \<noteq> 0)"

text \<open>A sample of what a call meets, for closed examples.\<close>

definition sample_vtable :: "nat \<Rightarrow> PVOID" where
  "sample_vtable k = 7000 + k"

definition sample_trampoline :: "PVOID \<Rightarrow> PVOID" where
  "sample_trampoline entry = 90000 + entry"

definition sample_hk_address :: "audio_slot \<Rightarrow> PVOID" where
  "sample_hk_address slot =
     (case slot of
        Slot_GetSessionEnumerator \<Rightarrow> 501
      | Slot_GetSession \<Rightarrow> 502
      | Slot_GetProcessId \<Rightarrow> 503
      | Slot_IsSystemSoundsSession \<Rightarrow> 504)"

definition sample_com_results :: com_results where
  "sample_com_results =
     \<lparr>clsid_is_MMDeviceEnumerator = True, riid_is_IMMDeviceEnumerator = True,
      hresult_error = None, vtable = sample_vtable,
      detours_answers = sample_detours_results, trampoline = sample_trampoline,
      hk_address = sample_hk_address, original_result = S_OK\<rparr>"

definition sample_calls :: "(com_call \<times> com_results) list" where
  "sample_calls =
     [(CoCreateInstance_call, sample_com_results), (CoCreateInstance_call, sample_com_results),
      (GetSessionEnumerator_call, sample_com_results),
      (GetSessionEnumerator_call, sample_com_results),
      (GetSession_call, sample_com_results), (GetSession_call, sample_com_results)]"

definition sample_installed :: audio_hooks where
  "sample_installed =
     \<lparr>o_GetSessionEnumerator_ptr = 97005, o_GetSession_ptr = 97004,
      o_GetProcessId_ptr = 97014, o_IsSystemSoundsSession_ptr = 97015,
      detours_state =
        \<lparr>staged = [], active = [(7005, 501), (7004, 502), (7014, 503), (7015, 504)]\<rparr>,
      actions =
        [Read_vtable 5, Patched Slot_GetSessionEnumerator, Passed_to_original,
         Passed_to_original,
         Read_vtable 4, Patched Slot_GetSession, Passed_to_original,
         Passed_to_original,
         Read_vtable 14, Patched Slot_GetProcessId, Read_vtable 15,
         Patched Slot_IsSystemSoundsSession, Passed_to_original,
         Passed_to_original]\<rparr>"

definition sample_passed :: "com_action list" where
  "sample_passed =
     [Passed_to_original, Passed_to_original, Passed_to_original, Passed_to_original,
      Passed_to_original, Passed_to_original]"

text \<open>
  How often a slot has been patched so far, and the invariant of the chain: no slot
  has been patched twice, and a slot that is still null has not been patched.
\<close>

definition patch_count :: "audio_slot \<Rightarrow> audio_hooks \<Rightarrow> nat" where
  "patch_count k s = count_list (actions s) (Patched k)"

definition all_slots :: "audio_slot list" where
  "all_slots =
     [Slot_GetSessionEnumerator, Slot_GetSession, Slot_GetProcessId, Slot_IsSystemSoundsSession]"

definition patched_once :: "audio_hooks \<Rightarrow> bool" where
  "patched_once s =
     list_all (\<lambda>k. patch_count k s \<le> 1 \<and> (slot_ptr k s = 0 \<longrightarrow> patch_count k s = 0)) all_slots"


chapter \<open>Properties\<close>

section \<open>Pattern scanner\<close>

lemma window_matches_in_range:
  assumes "length (mask_s sg) = length (pattern sg)"
    and "i + length (pattern sg) \<le> length img" and "length img < 2 ^ W"
  shows "j \<le> length (pattern sg) \<Longrightarrow>
         window_matches W sg img i j =
           Inr (\<forall>k \<in> {j..<length (pattern sg)}.
                  mask_s sg ! k \<noteq> CHR ''?'' \<longrightarrow> pattern sg ! k = img ! (i + k))"
proof (induction "length (pattern sg) - j" arbitrary: j)
  case 0
  then have "j = length (pattern sg)" by simp
  then show ?case by (subst window_matches.simps) simp
next
  case (Suc d)
  then have lt: "j < length (pattern sg)" by simp
  then have m: "(i + j) mod 2 ^ W = i + j" "i + j < length img"
    using assms(2,3) by simp_all
  have ih: "window_matches W sg img i (Suc j) =
           Inr (\<forall>k \<in> {Suc j..<length (pattern sg)}.
                  mask_s sg ! k \<noteq> CHR ''?'' \<longrightarrow> pattern sg ! k = img ! (i + k))"
    using Suc.hyps(1) [of "Suc j"] Suc.hyps(2) lt by simp
  have split: "{j..<length (pattern sg)} = insert j {Suc j..<length (pattern sg)}"
    using lt by auto
  show ?case
    unfolding split using lt m ih assms(1)
    by (subst window_matches.simps) auto
qed

lemma window_matches_spec:
  assumes "length (mask_s sg) = length (pattern sg)"
    and "i + length (pattern sg) \<le> length img" and "length img < 2 ^ W"
  shows "window_matches W sg img i 0 = Inr (spec_matches_at sg img i)"
  using window_matches_in_range [OF assms, of 0] assms(2)
  by (simp add: spec_matches_at_def)

lemma scan_from_in_range:
  assumes "length (mask_s sg) = length (pattern sg)"
    and "length (pattern sg) \<le> length img" and "length img + 1 < 2 ^ W"
    and "limit = length img - length (pattern sg)"
  shows "i \<le> limit + 1 \<Longrightarrow>
         scan_from W sg img limit i occ =
           Some (Inr (occ @ filter (spec_matches_at sg img) [i..<limit + 1]))"
proof (induction "limit + 1 - i" arbitrary: i occ)
  case 0
  then have "i = limit + 1" by simp
  then show ?case by (subst scan_from.simps) simp
next
  case (Suc d)
  then have le: "i \<le> limit" by simp
  then have w: "window_matches W sg img i 0 = Inr (spec_matches_at sg img i)"
    using assms by (intro window_matches_spec) simp_all
  have m: "(i + 1) mod 2 ^ W = Suc i" using le assms(3,4) by simp
  have ih: "\<And>occ'. scan_from W sg img limit (Suc i) occ' =
           Some (Inr (occ' @ filter (spec_matches_at sg img) [Suc i..<limit + 1]))"
    using Suc.hyps(1) [of "Suc i"] Suc.hyps(2) le by simp
  have u: "[i..<limit + 1] = i # [Suc i..<limit + 1]"
    using le by (simp add: upt_conv_Cons)
  show ?case
    apply (subst scan_from.simps)
    apply (simp only: le w m ih u if_True sum.case filter.simps append_Cons append_Nil append_assoc split: if_split)
    apply simp
    done
qed

lemma find_signatures_filter:
  assumes "GetModuleHandle_ok p" and "GetModuleInformation_ok p"
    and "length (mask_s sg) = length (pattern sg)"
    and "length (pattern sg) \<le> length (image p)"
    and "length (image p) \<le> 2 ^ 31" and "32 \<le> W"
  shows "find_signatures W sg p =
           Some (Inr (filter (spec_matches_at sg (image p))
                        [0..<length (image p) - length (pattern sg) + 1]))"
proof -
  have "(2::nat) ^ 32 \<le> 2 ^ W" using assms(6) by (intro power_increasing) simp_all
  then have big: "length (image p) + 1 < 2 ^ W" using assms(5) by simp
  have d: "int (length (image p)) - int (length (pattern sg))
             = int (length (image p) - length (pattern sg))"
    using assms(4) by simp
  have "length (image p) - length (pattern sg) < 2 ^ W" using big by simp
  then have "int (length (image p) - length (pattern sg)) < int (2 ^ W)"
    by (simp only: of_nat_less_iff)
  then have "int (length (image p) - length (pattern sg)) < 2 ^ W" by simp
  then have "int (length (image p) - length (pattern sg)) mod 2 ^ W
             = int (length (image p) - length (pattern sg))"
    by (intro mod_pos_pos_trivial) simp_all
  then have lim: "nat ((int (length (image p)) - int (length (pattern sg))) mod 2 ^ W)
             = length (image p) - length (pattern sg)"
    unfolding d by (simp only: nat_int)
  have "scan_from W sg (image p) (length (image p) - length (pattern sg)) 0 [] =
        Some (Inr ([] @ filter (spec_matches_at sg (image p))
                        [0..<length (image p) - length (pattern sg) + 1]))"
    by (rule scan_from_in_range [OF assms(3,4) big refl]) simp
  then show ?thesis
    unfolding find_signatures_def Let_def lim using assms(1,2)
    by (simp only: if_False not_True_eq_False append_Nil)
qed


text \<open>
  When the module's base and size are resolved, the mask is as long as the pattern,
  and the pattern is no longer than the scanned image (an image below 2 GiB, \<open>size_t\<close>
  of at least 32 bits), the scanner returns and its result holds exactly the offsets at
  which every non-wildcard byte of the pattern equals the image byte at that offset
  plus its position; the offsets, and so the addresses \<open>lpBaseOfDll + i\<close>, are strictly
  ascending.
\<close>

lemma find_signatures_exact:
  assumes "GetModuleHandle_ok p" and "GetModuleInformation_ok p"
    and "length (mask_s sg) = length (pattern sg)"
    and "length (pattern sg) \<le> length (image p)"
    and "length (image p) \<le> 2 ^ 31" and "32 \<le> W"
  shows "\<exists>occ. find_signatures W sg p = Some (Inr occ)
               \<and> set occ = {i. spec_matches_at sg (image p) i}
               \<and> sorted_wrt (<) occ
               \<and> sorted_wrt (<) (map (\<lambda>i. lpBaseOfDll + i) occ)"
proof -
  let ?occ = "filter (spec_matches_at sg (image p))
                [0..<length (image p) - length (pattern sg) + 1]"
  have f: "find_signatures W sg p = Some (Inr ?occ)"
    using assms by (rule find_signatures_filter)
  have bound: "\<And>i. spec_matches_at sg (image p) i
                  \<Longrightarrow> i \<in> {0..<length (image p) - length (pattern sg) + 1}"
    by (auto simp: spec_matches_at_def)
  have "set ?occ = {i \<in> {0..<length (image p) - length (pattern sg) + 1}.
                       spec_matches_at sg (image p) i}"
    by (simp only: set_filter set_upt)
  then have s: "set ?occ = {i. spec_matches_at sg (image p) i}"
    using bound by blast
  have o: "sorted_wrt (<) ?occ" by (intro sorted_wrt_filter sorted_wrt_upt)
  then have "sorted_wrt (\<lambda>x y. lpBaseOfDll + x < lpBaseOfDll + y) ?occ"
    by (simp only: add_less_cancel_left)
  then have o': "sorted_wrt (<) (map (\<lambda>i. lpBaseOfDll + i) ?occ)"
    by (simp only: sorted_wrt_map)
  from f s o o' show ?thesis by blast
qed

lemma find_signatures_exact_example:
  "(\<exists>occ. find_signatures 64 \<lparr>pattern = [0xF3, 0x00, 0x59], mask_s = ''x?x''\<rparr>
             \<lparr>GetModuleHandle_ok = True, GetModuleInformation_ok = True, sections = [],
              image = [0x00, 0xF3, 0x11, 0x59, 0xF3, 0x22, 0x59, 0x00]\<rparr> = Some (Inr occ)
         \<and> set occ = {i. spec_matches_at \<lparr>pattern = [0xF3, 0x00, 0x59], mask_s = ''x?x''\<rparr>
                            [0x00, 0xF3, 0x11, 0x59, 0xF3, 0x22, 0x59, 0x00] i}
         \<and> sorted_wrt (<) occ
         \<and> sorted_wrt (<) (map (\<lambda>i. 0x140000000 + i) occ))
   \<and> find_signatures 64 \<lparr>pattern = [0xF3, 0x00, 0x59], mask_s = ''x?x''\<rparr>
             \<lparr>GetModuleHandle_ok = True, GetModuleInformation_ok = True, sections = [],
              image = [0x00, 0xF3, 0x11, 0x59, 0xF3, 0x22, 0x59, 0x00]\<rparr> = Some (Inr [1, 4])"
proof -
  let ?sg = "\<lparr>pattern = [0xF3, 0x00, 0x59], mask_s = ''x?x''\<rparr>"
  let ?p = "\<lparr>GetModuleHandle_ok = True, GetModuleInformation_ok = True, sections = [],
              image = [0x00, 0xF3, 0x11, 0x59, 0xF3, 0x22, 0x59, 0x00]\<rparr>"
  have a: "\<exists>occ. find_signatures 64 ?sg ?p = Some (Inr occ)
               \<and> set occ = {i. spec_matches_at ?sg (image ?p) i} \<and> sorted_wrt (<) occ
               \<and> sorted_wrt (<) (map (\<lambda>i. 0x140000000 + i) occ)"
    by (rule find_signatures_exact) simp_all
  have b: "find_signatures 64 ?sg ?p = Some (Inr [1, 4])"
    by (simp add: find_signatures_def scan_from.simps window_matches.simps)
  from a b show ?thesis by simp
qed





section \<open>Code cave allocator\<close>

lemma cave_is_zero_Some:
  "cave_is_zero img p n i = Inr (Some q) \<Longrightarrow>
     q = p \<and> (\<forall>j. i \<le> j \<and> j < n \<longrightarrow> p + j < length img \<and> img ! (p + j) = 0)"
proof (induction img p n i rule: cave_is_zero.induct)
  case (1 img p n i)
  show ?case
  proof (cases "i < n")
    case False
    with "1.prems" show ?thesis by (auto simp: cave_is_zero.simps [of img p n i])
  next
    case True
    with "1.prems" have a: "p + i < length img" "img ! (p + i) = 0" "i \<noteq> 2 ^ 31 - 1"
      and r: "cave_is_zero img p n (i + 1) = Inr (Some q)"
      by (auto simp: cave_is_zero.simps [of img p n i] split: if_splits)
    from "1.IH" [OF True a(1) _ a(3) r] a(2)
    have ih: "q = p \<and> (\<forall>j. i + 1 \<le> j \<and> j < n \<longrightarrow> p + j < length img \<and> img ! (p + j) = 0)"
      by simp
    show ?thesis
    proof (intro conjI allI impI)
      show "q = p" using ih by simp
    next
      fix j assume "i \<le> j \<and> j < n"
      then have "j = i \<or> (i + 1 \<le> j \<and> j < n)" by auto
      then show "p + j < length img" using a ih by auto
    next
      fix j assume "i \<le> j \<and> j < n"
      then have "j = i \<or> (i + 1 \<le> j \<and> j < n)" by auto
      then show "img ! (p + j) = 0" using a ih by auto
    qed
  qed
qed

lemma cave_is_zero_run:
  assumes "\<forall>j. i \<le> j \<and> j < K \<longrightarrow> img ! (p + j) = 0"
    and "p + K < length img" and "img ! (p + K) \<noteq> 0" and "K < 2 ^ 31" and "i \<le> K"
  shows "cave_is_zero img p n i = Inr (if n \<le> K then Some p else None)"
  using assms
proof (induction "K - i" arbitrary: i)
  case 0
  then have "i = K" by simp
  with 0 show ?case by (simp add: cave_is_zero.simps [of img p n K])
next
  case (Suc d)
  then have lt: "i < K" by simp
  have z: "img ! (p + i) = 0" using Suc.prems(1) lt by simp
  have ih: "cave_is_zero img p n (i + 1) = Inr (if n \<le> K then Some p else None)"
    using Suc.hyps(1) [of "i + 1"] Suc.hyps(2) Suc.prems lt by simp
  show ?case
  proof (cases "i < n")
    case True
    then show ?thesis using lt z ih Suc.prems
      by (simp add: cave_is_zero.simps [of img p n i])
  next
    case False
    then show ?thesis using lt by (simp add: cave_is_zero.simps [of img p n i])
  qed
qed


lemma find_code_cave_Some:
  assumes "find_code_cave secs img n = Inr (Some q)"
  shows "text_end secs None = Some q \<and> (\<forall>i<n. q + i < length img \<and> img ! (q + i) = 0)"
proof -
  from assms obtain p where p: "text_end secs None = Some p"
    and c: "cave_is_zero img p n 0 = Inr (Some q)"
    by (auto simp: find_code_cave_def split: option.splits)
  from cave_is_zero_Some [OF c] p show ?thesis by simp
qed

lemma find_code_cave_run:
  assumes "text_end secs None = Some p" and "\<forall>i<K. img ! (p + i) = 0"
    and "p + K < length img" and "img ! (p + K) \<noteq> 0" and "length img \<le> 2 ^ 31"
  shows "find_code_cave secs img n = Inr (if n \<le> K then Some p else None)"
proof -
  have "K < 2 ^ 31" using assms(3,5) by simp
  then have "cave_is_zero img p n 0 = Inr (if n \<le> K then Some p else None)"
    using assms by (intro cave_is_zero_run) simp_all
  then show ?thesis using assms(1) by (simp add: find_code_cave_def)
qed

lemma find_code_cave_nonzero:
  assumes "text_end secs None = Some p" and "k < n" and "p + k < length img"
    and "img ! (p + k) \<noteq> 0" and "length img \<le> 2 ^ 31"
  shows "find_code_cave secs img n = Inr None"
proof -
  define K where "K = (LEAST j. img ! (p + j) \<noteq> 0)"
  have nz: "img ! (p + K) \<noteq> 0" unfolding K_def using assms(4) by (rule LeastI)
  have le: "K \<le> k" unfolding K_def using assms(4) by (rule Least_le)
  have z: "\<forall>i<K. img ! (p + i) = 0" unfolding K_def using not_less_Least by blast
  have "find_code_cave secs img n = Inr (if n \<le> K then Some p else None)"
    using assms(1) z _ nz assms(5) by (rule find_code_cave_run) (use le assms(3) in simp)
  then show ?thesis using le assms(2) by simp
qed

text \<open>
  Claim C2.  For every requested size \<open>n\<close>: a pointer is returned only when all \<open>n\<close>
  bytes from the end of the \<open>.text\<close> section on lie in the image and are zero, and the
  pointer is that section end; a non-zero byte among those \<open>n\<close> bytes makes the
  allocator return nothing; and a run of exactly \<open>K\<close> zero bytes followed by a
  non-zero byte serves exactly the requests of size at most \<open>K\<close>.  The image is below
  2 GiB, so the \<open>int\<close> counter of the loop stays in range.
\<close>

theorem find_code_cave_verified:
  "(find_code_cave secs img n = Inr (Some q) \<longrightarrow>
      text_end secs None = Some q \<and> (\<forall>i<n. q + i < length img \<and> img ! (q + i) = 0))
   \<and> (text_end secs None = Some p \<and> k < n \<and> p + k < length img \<and> img ! (p + k) \<noteq> 0
        \<and> length img \<le> 2 ^ 31 \<longrightarrow> find_code_cave secs img n = Inr None)
   \<and> (text_end secs None = Some p \<and> (\<forall>i<K. img ! (p + i) = 0) \<and> p + K < length img
        \<and> img ! (p + K) \<noteq> 0 \<and> length img \<le> 2 ^ 31 \<longrightarrow>
        find_code_cave secs img n = Inr (if n \<le> K then Some p else None))"
  using find_code_cave_Some [of secs img n q] find_code_cave_nonzero [of secs p k n img]
    find_code_cave_run [of secs p K img n]
  by blast

theorem find_code_cave_verified_witness:
  "find_code_cave [\<lparr>Name = ''.text'', VirtualAddress = 2, VirtualSize = 1\<rparr>] [1, 2, 3, 0, 0, 0, 7, 0] 3
     = Inr (Some 3)
   \<and> find_code_cave [\<lparr>Name = ''.text'', VirtualAddress = 2, VirtualSize = 1\<rparr>] [1, 2, 3, 0, 0, 0, 7, 0] 4
     = Inr None
   \<and> text_end [\<lparr>Name = ''.text'', VirtualAddress = 2, VirtualSize = 1\<rparr>] None = Some 3"
proof -
  let ?secs = "[\<lparr>Name = ''.text'', VirtualAddress = 2, VirtualSize = 1\<rparr>]"
  let ?img = "[1, 2, 3, 0, 0, 0, 7, 0] :: byte list"
  have t: "text_end ?secs None = Some 3" by simp
  have z: "\<forall>i<3. ?img ! (3 + i) = 0"
  proof (intro allI impI)
    fix i :: nat assume "i < 3"
    then have "i = 0 \<or> i = 1 \<or> i = 2" by arith
    then show "?img ! (3 + i) = 0" by auto
  qed
  have a: "find_code_cave ?secs ?img 3 = Inr (Some 3)"
    using find_code_cave_verified [of ?secs ?img 3 3 3 0 3] t z by simp
  have b: "find_code_cave ?secs ?img 4 = Inr None"
    using find_code_cave_verified [of ?secs ?img 4 3 3 3 3] t z by simp
  have c: "text_end ?secs None = Some 3"
    using find_code_cave_verified [of ?secs ?img 3 3 3 0 3] a by simp
  show ?thesis using a b c by simp
qed

section \<open>Shellcode patcher\<close>

lemma length_le_bytes [simp]: "length (le_bytes n v) = n"
  by (induction n arbitrary: v) simp_all

lemma length_shellcode [simp]:
  "length (shellcode_multiply64 x) = 21" "length (shellcode_multiply32 x) = 10"
  "length (shellcode_call64 y) = 8" "length (shellcode_call32 y) = 6"
  by (simp_all add: shellcode_multiply64_def shellcode_multiply32_def shellcode_call64_def
      shellcode_call32_def)

lemma memcpy_s_frame:
  assumes "memcpy_s img d src = Inr img'"
  shows "length img' = length img"
    and "take (length src) (drop d img') = src"
    and "\<forall>a<length img'. a < d \<or> d + length src \<le> a \<longrightarrow> img' ! a = img ! a"
proof -
  from assms have le: "d + length src \<le> length img"
    and eq: "img' = take d img @ src @ drop (d + length src) img"
    by (auto simp: memcpy_s_def split: if_splits)
  show "length img' = length img" using le by (simp add: eq)
  show "take (length src) (drop d img') = src" using le by (simp add: eq)
  show "\<forall>a<length img'. a < d \<or> d + length src \<le> a \<longrightarrow> img' ! a = img ! a"
  proof (intro allI impI)
    fix a assume a: "a < length img'" and r: "a < d \<or> d + length src \<le> a"
    from r show "img' ! a = img ! a"
    proof
      assume "a < d"
      then show ?thesis using le by (simp add: eq nth_append)
    next
      assume h: "d + length src \<le> a"
      then have n: "\<not> a < d" "\<not> a - d < length src" by simp_all
      have "img' ! a = drop (d + length src) img ! (a - d - length src)"
        using le n by (simp add: eq nth_append)
      also have "\<dots> = img ! a" using h le by simp
      finally show ?thesis .
    qed
  qed
qed

lemma patch64_wrong_count:
  assumes "GetModuleHandle_ok p"
    and "find_code_cave (sections p) (image p) 21 = Inr (Some cave)"
    and "VirtualProtect cave 21 PAGE_EXECUTE_READWRITE"
    and "VirtualProtect cave 21 PAGE_EXECUTE_READ"
    and "memcpy_s (image p) cave (shellcode_multiply64 ptr) = Inr img1"
    and "find_signatures 64 sig_mulss1 (p\<lparr>image := img1\<rparr>) = Some (Inr occ1)"
    and "find_signatures 64 sig_mulss2 (p\<lparr>image := img1\<rparr>) = Some (Inr occ2)"
    and "length (occ1 @ occ2) \<noteq> 2"
  shows "apply_scroll_patch64 VirtualProtect p ptr = Some (Inr (False, img1))"
  unfolding apply_scroll_patch64_def using assms by (simp add: Let_def)

lemma patch32_wrong_count:
  assumes "GetModuleHandle_ok p"
    and "find_code_cave (sections p) (image p) 10 = Inr (Some cave)"
    and "VirtualProtect cave 10 PAGE_EXECUTE_READWRITE"
    and "VirtualProtect cave 10 PAGE_EXECUTE_READ"
    and "memcpy_s (image p) cave (shellcode_multiply32 ptr) = Inr img1"
    and "find_signatures 32 sig_fmul1 (p\<lparr>image := img1\<rparr>) = Some (Inr occ1)"
    and "find_signatures 32 sig_fmul2 (p\<lparr>image := img1\<rparr>) = Some (Inr occ2)"
    and "length (occ1 @ occ2) \<noteq> 2"
  shows "apply_scroll_patch32 VirtualProtect p ptr = Some (Inr (False, img1))"
  unfolding apply_scroll_patch32_def using assms by (simp add: Let_def)


text \<open>
  Claim C3.  In both scroll patches, once the thunk has been copied into the code cave
  and the two signature variants have been scanned, every combined match count other
  than two makes the operation return \<open>false\<close>; the module is then the original image
  with the thunk in the cave and no other byte changed, so no call site is rewritten
  and the thunk stays in place.
\<close>

theorem scroll_patch_wrong_count:
  "(GetModuleHandle_ok p
    \<and> find_code_cave (sections p) (image p) 21 = Inr (Some cave)
    \<and> VirtualProtect cave 21 PAGE_EXECUTE_READWRITE
    \<and> VirtualProtect cave 21 PAGE_EXECUTE_READ
    \<and> memcpy_s (image p) cave (shellcode_multiply64 ptr) = Inr img1
    \<and> find_signatures 64 sig_mulss1 (p\<lparr>image := img1\<rparr>) = Some (Inr occ1)
    \<and> find_signatures 64 sig_mulss2 (p\<lparr>image := img1\<rparr>) = Some (Inr occ2)
    \<and> length (occ1 @ occ2) \<noteq> 2
    \<longrightarrow> apply_scroll_patch64 VirtualProtect p ptr = Some (Inr (False, img1))
        \<and> length img1 = length (image p)
        \<and> take 21 (drop cave img1) = shellcode_multiply64 ptr
        \<and> (\<forall>a<length img1. a < cave \<or> cave + 21 \<le> a \<longrightarrow> img1 ! a = image p ! a))
   \<and> (GetModuleHandle_ok p
    \<and> find_code_cave (sections p) (image p) 10 = Inr (Some cave)
    \<and> VirtualProtect cave 10 PAGE_EXECUTE_READWRITE
    \<and> VirtualProtect cave 10 PAGE_EXECUTE_READ
    \<and> memcpy_s (image p) cave (shellcode_multiply32 ptr) = Inr img1
    \<and> find_signatures 32 sig_fmul1 (p\<lparr>image := img1\<rparr>) = Some (Inr occ1)
    \<and> find_signatures 32 sig_fmul2 (p\<lparr>image := img1\<rparr>) = Some (Inr occ2)
    \<and> length (occ1 @ occ2) \<noteq> 2
    \<longrightarrow> apply_scroll_patch32 VirtualProtect p ptr = Some (Inr (False, img1))
        \<and> length img1 = length (image p)
        \<and> take 10 (drop cave img1) = shellcode_multiply32 ptr
        \<and> (\<forall>a<length img1. a < cave \<or> cave + 10 \<le> a \<longrightarrow> img1 ! a = image p ! a))"
proof (intro conjI impI; elim conjE)
  assume h: "GetModuleHandle_ok p"
    "find_code_cave (sections p) (image p) 21 = Inr (Some cave)"
    "VirtualProtect cave 21 PAGE_EXECUTE_READWRITE"
    "VirtualProtect cave 21 PAGE_EXECUTE_READ"
    "memcpy_s (image p) cave (shellcode_multiply64 ptr) = Inr img1"
    "find_signatures 64 sig_mulss1 (p\<lparr>image := img1\<rparr>) = Some (Inr occ1)"
    "find_signatures 64 sig_mulss2 (p\<lparr>image := img1\<rparr>) = Some (Inr occ2)"
    "length (occ1 @ occ2) \<noteq> 2"
  show "apply_scroll_patch64 VirtualProtect p ptr = Some (Inr (False, img1))"
    using h by (rule patch64_wrong_count)
  show "length img1 = length (image p)"
    using memcpy_s_frame(1) [OF h(5)] .
  show "take 21 (drop cave img1) = shellcode_multiply64 ptr"
    using memcpy_s_frame(2) [OF h(5)] by simp
  show "\<forall>a<length img1. a < cave \<or> cave + 21 \<le> a \<longrightarrow> img1 ! a = image p ! a"
    using memcpy_s_frame(3) [OF h(5)] by simp
next
  assume h: "GetModuleHandle_ok p"
    "find_code_cave (sections p) (image p) 10 = Inr (Some cave)"
    "VirtualProtect cave 10 PAGE_EXECUTE_READWRITE"
    "VirtualProtect cave 10 PAGE_EXECUTE_READ"
    "memcpy_s (image p) cave (shellcode_multiply32 ptr) = Inr img1"
    "find_signatures 32 sig_fmul1 (p\<lparr>image := img1\<rparr>) = Some (Inr occ1)"
    "find_signatures 32 sig_fmul2 (p\<lparr>image := img1\<rparr>) = Some (Inr occ2)"
    "length (occ1 @ occ2) \<noteq> 2"
  show "apply_scroll_patch32 VirtualProtect p ptr = Some (Inr (False, img1))"
    using h by (rule patch32_wrong_count)
  show "length img1 = length (image p)"
    using memcpy_s_frame(1) [OF h(5)] .
  show "take 10 (drop cave img1) = shellcode_multiply32 ptr"
    using memcpy_s_frame(2) [OF h(5)] by simp
  show "\<forall>a<length img1. a < cave \<or> cave + 10 \<le> a \<longrightarrow> img1 ! a = image p ! a"
    using memcpy_s_frame(3) [OF h(5)] by simp
qed

lemma le_bytes_numeral:
  "le_bytes (numeral k) v = word_of_int v # le_bytes (pred_numeral k) (v div 256)"
  by (simp add: numeral_eq_Suc)

theorem scroll_patch_wrong_count_witness:
  "apply_scroll_patch64 (\<lambda>address n protect. True)
     \<lparr>GetModuleHandle_ok = True, GetModuleInformation_ok = True,
      sections = [\<lparr>Name = ''.text'', VirtualAddress = 0, VirtualSize = 19\<rparr>],
      image = [0xF3, 0x0F, 0x59, 0x05, 0x10, 0x20, 0x30, 0x40, 0x0F, 0x28, 0xF2, 0xF3, 0x0F, 0x5C,
               0xF0, 0x0F, 0x2F, 0xCE, 0xC3,
               0, 0, 0, 0, 0, 0, 0, 0, 0, 0, 0, 0, 0, 0, 0, 0, 0, 0, 0, 0, 0]\<rparr>
     0x7FFB12345678
   = Some (Inr (False,
        [0xF3, 0x0F, 0x59, 0x05, 0x10, 0x20, 0x30, 0x40, 0x0F, 0x28, 0xF2, 0xF3, 0x0F, 0x5C,
         0xF0, 0x0F, 0x2F, 0xCE, 0xC3,
         0x51, 0x48, 0xB9, 0x78, 0x56, 0x34, 0x12, 0xFB, 0x7F, 0x00, 0x00,
         0xF3, 0x0F, 0x10, 0x31, 0xF3, 0x0F, 0x59, 0xC6, 0x59, 0xC3]))
   \<and> apply_scroll_patch32 (\<lambda>address n protect. True)
     \<lparr>GetModuleHandle_ok = True, GetModuleInformation_ok = True,
      sections = [\<lparr>Name = ''.text'', VirtualAddress = 0, VirtualSize = 14\<rparr>],
      image = [0xD9, 0x11, 0x22, 0x33, 0xDB, 0x45, 0x08, 0xDC, 0x0D, 0xAA, 0xBB, 0xCC, 0xDD, 0xC3,
               0, 0, 0, 0, 0, 0, 0, 0, 0, 0, 0, 0]\<rparr>
     0x00403000
   = Some (Inr (False,
        [0xD9, 0x11, 0x22, 0x33, 0xDB, 0x45, 0x08, 0xDC, 0x0D, 0xAA, 0xBB, 0xCC, 0xDD, 0xC3,
         0x50, 0xB8, 0x00, 0x30, 0x40, 0x00, 0xD8, 0x08, 0x58, 0xC3, 0, 0]))"
proof -
  let ?vp = "\<lambda>(address::nat) (n::nat) (protect::protection). True"
  let ?secs64 = "[\<lparr>Name = ''.text'', VirtualAddress = 0, VirtualSize = 19\<rparr>]"
  let ?img64 = "[0xF3, 0x0F, 0x59, 0x05, 0x10, 0x20, 0x30, 0x40, 0x0F, 0x28, 0xF2, 0xF3, 0x0F, 0x5C,
               0xF0, 0x0F, 0x2F, 0xCE, 0xC3,
               0, 0, 0, 0, 0, 0, 0, 0, 0, 0, 0, 0, 0, 0, 0, 0, 0, 0, 0, 0, 0] :: byte list"
  let ?out64 = "[0xF3, 0x0F, 0x59, 0x05, 0x10, 0x20, 0x30, 0x40, 0x0F, 0x28, 0xF2, 0xF3, 0x0F, 0x5C,
         0xF0, 0x0F, 0x2F, 0xCE, 0xC3,
         0x51, 0x48, 0xB9, 0x78, 0x56, 0x34, 0x12, 0xFB, 0x7F, 0x00, 0x00,
         0xF3, 0x0F, 0x10, 0x31, 0xF3, 0x0F, 0x59, 0xC6, 0x59, 0xC3] :: byte list"
  let ?p64 = "\<lparr>GetModuleHandle_ok = True, GetModuleInformation_ok = True,
      sections = ?secs64, image = ?img64\<rparr>"
  have c64: "find_code_cave (sections ?p64) (image ?p64) 21 = Inr (Some 19)"
    by (simp add: find_code_cave_def cave_is_zero.simps)
  have m64: "memcpy_s (image ?p64) 19 (shellcode_multiply64 0x7FFB12345678) = Inr ?out64"
    by (simp add: memcpy_s_def shellcode_multiply64_def le_bytes_numeral)
  have s1: "find_signatures 64 sig_mulss1 (?p64\<lparr>image := ?out64\<rparr>) = Some (Inr [0])"
    by (simp add: find_signatures_def scan_from.simps window_matches.simps sig_mulss1_def)
  have s2: "find_signatures 64 sig_mulss2 (?p64\<lparr>image := ?out64\<rparr>) = Some (Inr [])"
    by (simp add: find_signatures_def scan_from.simps window_matches.simps sig_mulss2_def)
  have a: "apply_scroll_patch64 ?vp ?p64 0x7FFB12345678 = Some (Inr (False, ?out64))"
    using scroll_patch_wrong_count [of ?p64 19 ?vp "0x7FFB12345678" ?out64 "[0]" "[]"]
      c64 m64 s1 s2 by simp
  let ?secs32 = "[\<lparr>Name = ''.text'', VirtualAddress = 0, VirtualSize = 14\<rparr>]"
  let ?img32 = "[0xD9, 0x11, 0x22, 0x33, 0xDB, 0x45, 0x08, 0xDC, 0x0D, 0xAA, 0xBB, 0xCC, 0xDD, 0xC3,
               0, 0, 0, 0, 0, 0, 0, 0, 0, 0, 0, 0] :: byte list"
  let ?out32 = "[0xD9, 0x11, 0x22, 0x33, 0xDB, 0x45, 0x08, 0xDC, 0x0D, 0xAA, 0xBB, 0xCC, 0xDD, 0xC3,
         0x50, 0xB8, 0x00, 0x30, 0x40, 0x00, 0xD8, 0x08, 0x58, 0xC3, 0, 0] :: byte list"
  let ?p32 = "\<lparr>GetModuleHandle_ok = True, GetModuleInformation_ok = True,
      sections = ?secs32, image = ?img32\<rparr>"
  have c32: "find_code_cave (sections ?p32) (image ?p32) 10 = Inr (Some 14)"
    by (simp add: find_code_cave_def cave_is_zero.simps)
  have m32: "memcpy_s (image ?p32) 14 (shellcode_multiply32 0x00403000) = Inr ?out32"
    by (simp add: memcpy_s_def shellcode_multiply32_def le_bytes_numeral)
  have t1: "find_signatures 32 sig_fmul1 (?p32\<lparr>image := ?out32\<rparr>) = Some (Inr [0])"
    by (simp add: find_signatures_def scan_from.simps window_matches.simps sig_fmul1_def)
  have t2: "find_signatures 32 sig_fmul2 (?p32\<lparr>image := ?out32\<rparr>) = Some (Inr [])"
    by (simp add: find_signatures_def scan_from.simps window_matches.simps sig_fmul2_def)
  have b: "apply_scroll_patch32 ?vp ?p32 0x00403000 = Some (Inr (False, ?out32))"
    using scroll_patch_wrong_count [of ?p32 14 ?vp "0x00403000" ?out32 "[0]" "[]"]
      c32 m32 t1 t2 by simp
  from a b show ?thesis by simp
qed

section \<open>Hook installation\<close>

lemma attach_all_active:
  "attach_all env hooks d = (ok, d') \<Longrightarrow> active d' = active d"
proof (induction hooks arbitrary: d)
  case Nil
  then show ?case by simp
next
  case (Cons h hooks)
  obtain original hook where h: "h = (original, hook)" by (cases h)
  show ?case
  proof (cases "original \<noteq> 0 \<and> DetourAttach_result env original hook \<noteq> NO_ERROR")
    case True
    with Cons.prems show ?thesis by (auto simp: h DetourAttach_def)
  next
    case False
    then consider "original = 0" | "original \<noteq> 0" "DetourAttach_result env original hook = NO_ERROR"
      by blast
    then show ?thesis
    proof cases
      case 1
      with Cons.prems have "attach_all env hooks d = (ok, d')" by (simp add: h)
      then show ?thesis by (rule Cons.IH)
    next
      case 2
      with Cons.prems
      have "attach_all env hooks (d\<lparr>staged := staged d @ [(original, hook)]\<rparr>) = (ok, d')"
        by (simp add: h DetourAttach_def)
      then have "active d' = active (d\<lparr>staged := staged d @ [(original, hook)]\<rparr>)"
        by (rule Cons.IH)
      then show ?thesis by simp
    qed
  qed
qed

lemma attach_all_fails:
  assumes "(a, b) \<in> set hooks" and "a \<noteq> 0" and "DetourAttach_result env a b \<noteq> NO_ERROR"
  shows "attach_all env hooks d = (ok, d') \<Longrightarrow> \<not> ok"
  using assms(1)
proof (induction hooks arbitrary: d)
  case Nil
  then show ?case by simp
next
  case (Cons h hooks)
  obtain original hook where h: "h = (original, hook)" by (cases h)
  show ?case
  proof (cases "original \<noteq> 0 \<and> DetourAttach_result env original hook \<noteq> NO_ERROR")
    case True
    with Cons.prems(1) show ?thesis by (auto simp: h DetourAttach_def)
  next
    case False
    with Cons.prems(2) assms(2,3) have mem: "(a, b) \<in> set hooks" by (auto simp: h)
    from False consider "original = 0"
      | "original \<noteq> 0" "DetourAttach_result env original hook = NO_ERROR"
      by blast
    then show ?thesis
    proof cases
      case 1
      with Cons.prems(1) have "attach_all env hooks d = (ok, d')" by (simp add: h)
      then show ?thesis using mem by (rule Cons.IH)
    next
      case 2
      with Cons.prems(1)
      have "attach_all env hooks (d\<lparr>staged := staged d @ [(original, hook)]\<rparr>) = (ok, d')"
        by (simp add: h DetourAttach_def)
      then show ?thesis using mem by (rule Cons.IH)
    qed
  qed
qed

lemma attach_all_staged:
  "attach_all env hooks d = (True, d')
   \<Longrightarrow> staged d' = staged d @ filter (\<lambda>h. fst h \<noteq> 0) hooks"
proof (induction hooks arbitrary: d)
  case Nil
  then show ?case by simp
next
  case (Cons h hooks)
  obtain original hook where h: "h = (original, hook)" by (cases h)
  show ?case
  proof (cases "original = 0")
    case True
    with Cons.prems have "attach_all env hooks d = (True, d')" by (simp add: h)
    then have "staged d' = staged d @ filter (\<lambda>h. fst h \<noteq> 0) hooks" by (rule Cons.IH)
    then show ?thesis using True by (simp add: h)
  next
    case False
    with Cons.prems have ok: "DetourAttach_result env original hook = NO_ERROR"
      by (auto simp: h DetourAttach_def split: if_splits)
    with Cons.prems False
    have "attach_all env hooks (d\<lparr>staged := staged d @ [(original, hook)]\<rparr>) = (True, d')"
      by (simp add: h DetourAttach_def)
    then have "staged d' = staged (d\<lparr>staged := staged d @ [(original, hook)]\<rparr>)
                  @ filter (\<lambda>h. fst h \<noteq> 0) hooks"
      by (rule Cons.IH)
    then show ?thesis using False by (simp add: h)
  qed
qed

text \<open>The three ways \<open>apply_hooks\<close> can end, read off its definition.\<close>

lemma apply_hooks_cases:
  obtains (early) "apply_hooks env hooks_base hooks_theme theme_enabled d = (False, d)"
  | (begun) "apply_hooks env hooks_base hooks_theme theme_enabled d = (False, d\<lparr>staged := []\<rparr>)"
  | (base_failed) d1 where "attach_all env hooks_base (d\<lparr>staged := []\<rparr>) = (False, d1)"
      "apply_hooks env hooks_base hooks_theme theme_enabled d = (False, d1)"
  | (theme_failed) d1 d2 where "attach_all env hooks_base (d\<lparr>staged := []\<rparr>) = (True, d1)"
      "theme_enabled" "attach_all env hooks_theme d1 = (False, d2)"
      "apply_hooks env hooks_base hooks_theme theme_enabled d = (False, d2)"
  | (commit_failed) d1 d2 where "attach_all env hooks_base (d\<lparr>staged := []\<rparr>) = (True, d1)"
      "(if theme_enabled then attach_all env hooks_theme d1 else (True, d1)) = (True, d2)"
      "apply_hooks env hooks_base hooks_theme theme_enabled d = (False, d2\<lparr>staged := []\<rparr>)"
  | (committed) d1 d2 where "attach_all env hooks_base (d\<lparr>staged := []\<rparr>) = (True, d1)"
      "(if theme_enabled then attach_all env hooks_theme d1 else (True, d1)) = (True, d2)"
      "apply_hooks env hooks_base hooks_theme theme_enabled d
         = (True, d2\<lparr>staged := [], active := active d2 @ staged d2\<rparr>)"
proof (cases "DetourTransactionBegin_result env = NO_ERROR")
  case False
  then show ?thesis using early by (simp add: apply_hooks_def DetourTransactionBegin_def)
next
  case b: True
  show ?thesis
  proof (cases "DetourUpdateThread_result env = NO_ERROR")
    case False
    then show ?thesis using begun b by (simp add: apply_hooks_def DetourTransactionBegin_def)
  next
    case u: True
    obtain ok1 d1 where a1: "attach_all env hooks_base (d\<lparr>staged := []\<rparr>) = (ok1, d1)"
      by (cases "attach_all env hooks_base (d\<lparr>staged := []\<rparr>)")
    show ?thesis
    proof (cases ok1)
      case False
      then show ?thesis using base_failed [of d1] a1 b u
        by (simp add: apply_hooks_def DetourTransactionBegin_def)
    next
      case o1: True
      obtain ok2 d2 where a2:
        "(if theme_enabled then attach_all env hooks_theme d1 else (True, d1)) = (ok2, d2)"
        by (cases "if theme_enabled then attach_all env hooks_theme d1 else (True, d1)")
      show ?thesis
      proof (cases ok2)
        case False
        then have "theme_enabled" "attach_all env hooks_theme d1 = (False, d2)"
          using a2 by (auto split: if_splits)
        then show ?thesis using theme_failed [of d1 d2] a1 o1 b u False
          by (simp add: apply_hooks_def DetourTransactionBegin_def)
      next
        case o2: True
        show ?thesis
        proof (cases "DetourTransactionCommit_result env = NO_ERROR")
          case False
          then show ?thesis using commit_failed [of d1 d2] a1 a2 o1 o2 b u
            by (simp add: apply_hooks_def DetourTransactionBegin_def DetourTransactionCommit_def)
        next
          case True
          then show ?thesis using committed [of d1 d2] a1 a2 o1 o2 b u
            by (simp add: apply_hooks_def DetourTransactionBegin_def DetourTransactionCommit_def)
        qed
      qed
    qed
  qed
qed

lemma apply_hooks_false:
  assumes "apply_hooks env hooks_base hooks_theme theme_enabled d = (False, d')"
  shows "active d' = active d"
proof (cases rule: apply_hooks_cases [of env hooks_base hooks_theme theme_enabled d])
  case early
  with assms show ?thesis by simp
next
  case begun
  with assms show ?thesis by auto
next
  case (base_failed d1)
  with assms attach_all_active [OF base_failed(1)] show ?thesis by simp
next
  case (theme_failed d1 d2)
  with assms attach_all_active [OF theme_failed(1)] attach_all_active [OF theme_failed(3)]
  show ?thesis by simp
next
  case (commit_failed d1 d2)
  have "active d2 = active d1"
    using commit_failed(2) attach_all_active [of env hooks_theme d1 True d2]
    by (auto split: if_splits)
  with assms commit_failed attach_all_active [OF commit_failed(1)] show ?thesis by auto
next
  case (committed d1 d2)
  with assms show ?thesis by simp
qed

lemma apply_hooks_true:
  assumes "apply_hooks env hooks_base hooks_theme theme_enabled d = (True, d')"
  shows "active d' = active d
           @ filter (\<lambda>h. fst h \<noteq> 0) (hooks_base @ (if theme_enabled then hooks_theme else []))"
proof (cases rule: apply_hooks_cases [of env hooks_base hooks_theme theme_enabled d])
  case (committed d1 d2)
  have a1: "active d1 = active d" "staged d1 = filter (\<lambda>h. fst h \<noteq> 0) hooks_base"
    using attach_all_active [OF committed(1)] attach_all_staged [OF committed(1)] by simp_all
  have a2: "active d2 = active d1"
    "staged d2 = staged d1 @ filter (\<lambda>h. fst h \<noteq> 0) (if theme_enabled then hooks_theme else [])"
    using committed(2) attach_all_active [of env hooks_theme d1 True d2]
      attach_all_staged [of env hooks_theme d1 d2]
    by (auto split: if_splits)
  from assms committed(3) have "d' = d2\<lparr>staged := [], active := active d2 @ staged d2\<rparr>" by simp
  then show ?thesis using a1 a2 by simp
qed (use assms in simp_all)

lemma apply_hooks_attach_fails:
  assumes "(a, b) \<in> set (hooks_base @ (if theme_enabled then hooks_theme else []))"
    and "a \<noteq> 0" and "DetourAttach_result env a b \<noteq> NO_ERROR"
  shows "\<not> fst (apply_hooks env hooks_base hooks_theme theme_enabled d)"
proof (cases rule: apply_hooks_cases [of env hooks_base hooks_theme theme_enabled d])
  case (committed d1 d2)
  from assms(1) consider "(a, b) \<in> set hooks_base" | "theme_enabled" "(a, b) \<in> set hooks_theme"
    by (auto split: if_splits)
  then show ?thesis
  proof cases
    case 1
    from attach_all_fails [OF 1 assms(2,3) committed(1)] show ?thesis by simp
  next
    case 2
    with committed(2) have "attach_all env hooks_theme d1 = (True, d2)" by simp
    from attach_all_fails [OF 2(2) assms(2,3) this] show ?thesis by simp
  qed
qed simp_all

lemma hook_single_fn_attach_fails:
  "DetourAttach_result env o_fn hk_fn \<noteq> NO_ERROR
   \<Longrightarrow> fst (hook_single_fn env d o_fn hk_fn) = False
       \<and> active (snd (hook_single_fn env d o_fn hk_fn)) = active d"
  by (simp add: hook_single_fn_def DetourTransactionBegin_def DetourAttach_def)


text \<open>
  Claim C4.  If a record of the batch (the base hooks, and the theme hooks when the
  theme is enabled) has a non-null original and fails to attach, \<open>apply_hooks\<close>
  returns \<open>false\<close> and the active redirections are those from before the call.  More
  generally every failing installation leaves the active redirections unchanged, and
  a successful one adds exactly the records of the batch with a non-null original.
  The same holds for the one-record transaction of \<open>hook_single_fn\<close>.
\<close>

theorem hook_batch_atomic:
  "((a, b) \<in> set (hooks_base @ (if theme_enabled then hooks_theme else []))
      \<and> a \<noteq> 0 \<and> DetourAttach_result env a b \<noteq> NO_ERROR
    \<longrightarrow> fst (apply_hooks env hooks_base hooks_theme theme_enabled d) = False
        \<and> active (snd (apply_hooks env hooks_base hooks_theme theme_enabled d)) = active d)
   \<and> (\<not> fst (apply_hooks env hooks_base hooks_theme theme_enabled d)
    \<longrightarrow> active (snd (apply_hooks env hooks_base hooks_theme theme_enabled d)) = active d)
   \<and> (fst (apply_hooks env hooks_base hooks_theme theme_enabled d)
    \<longrightarrow> active (snd (apply_hooks env hooks_base hooks_theme theme_enabled d))
        = active d @ filter (\<lambda>h. fst h \<noteq> 0)
                       (hooks_base @ (if theme_enabled then hooks_theme else [])))
   \<and> (DetourAttach_result env o_fn hk_fn \<noteq> NO_ERROR
    \<longrightarrow> fst (hook_single_fn env d o_fn hk_fn) = False
        \<and> active (snd (hook_single_fn env d o_fn hk_fn)) = active d)"
proof -
  obtain ok d' where r: "apply_hooks env hooks_base hooks_theme theme_enabled d = (ok, d')"
    by (cases "apply_hooks env hooks_base hooks_theme theme_enabled d")
  have f: "\<not> ok \<Longrightarrow> active d' = active d"
    using apply_hooks_false [of env hooks_base hooks_theme theme_enabled d d'] r by simp
  have t: "ok \<Longrightarrow> active d' = active d @ filter (\<lambda>h. fst h \<noteq> 0)
                       (hooks_base @ (if theme_enabled then hooks_theme else []))"
    using apply_hooks_true [of env hooks_base hooks_theme theme_enabled d d'] r by simp
  have af: "(a, b) \<in> set (hooks_base @ (if theme_enabled then hooks_theme else []))
      \<Longrightarrow> a \<noteq> 0 \<Longrightarrow> DetourAttach_result env a b \<noteq> NO_ERROR \<Longrightarrow> \<not> ok"
    using apply_hooks_attach_fails [of a b hooks_base theme_enabled hooks_theme env d] r by simp
  show ?thesis
    unfolding r fst_conv snd_conv
    using f t af hook_single_fn_attach_fails [of env o_fn hk_fn d] by blast
qed

theorem hook_batch_atomic_witness:
  "apply_hooks sample_detours_results [(10, 11), (30, 31), (20, 21)] [(40, 41)] True
       \<lparr>staged = [], active = [(1, 2)]\<rparr>
     = (False, \<lparr>staged = [(10, 11)], active = [(1, 2)]\<rparr>)
   \<and> apply_hooks sample_detours_results [(10, 11), (0, 99), (20, 21)] [(40, 41)] True
       \<lparr>staged = [], active = [(1, 2)]\<rparr>
     = (True, \<lparr>staged = [], active = [(1, 2), (10, 11), (20, 21), (40, 41)]\<rparr>)
   \<and> hook_single_fn sample_detours_results \<lparr>staged = [], active = [(1, 2)]\<rparr> 30 31
     = (False, \<lparr>staged = [], active = [(1, 2)]\<rparr>)"
proof -
  let ?d = "\<lparr>staged = [], active = [(1, 2)]\<rparr> :: detours"
  have e: "DetourAttach_result sample_detours_results = sample_DetourAttach_result"
    "DetourTransactionBegin_result sample_detours_results = 0"
    "DetourUpdateThread_result sample_detours_results = 0"
    "DetourTransactionCommit_result sample_detours_results = 0"
    by (simp_all add: sample_detours_results_def)
  have a: "apply_hooks sample_detours_results [(10, 11), (30, 31), (20, 21)] [(40, 41)] True ?d
     = (False, \<lparr>staged = [(10, 11)], active = [(1, 2)]\<rparr>)"
    by (simp add: apply_hooks_def DetourTransactionBegin_def DetourAttach_def
        DetourTransactionCommit_def e sample_DetourAttach_result_def NO_ERROR_def)
  have b: "apply_hooks sample_detours_results [(10, 11), (0, 99), (20, 21)] [(40, 41)] True ?d
     = (True, \<lparr>staged = [], active = [(1, 2), (10, 11), (20, 21), (40, 41)]\<rparr>)"
    by (simp add: apply_hooks_def DetourTransactionBegin_def DetourAttach_def
        DetourTransactionCommit_def e sample_DetourAttach_result_def NO_ERROR_def)
  have c: "hook_single_fn sample_detours_results ?d 30 31 = (False, ?d)"
    by (simp add: hook_single_fn_def DetourTransactionBegin_def DetourAttach_def
        DetourTransactionCommit_def e sample_DetourAttach_result_def NO_ERROR_def)
  have "active (snd (apply_hooks sample_detours_results [(10, 11), (30, 31), (20, 21)] [(40, 41)] True ?d))
          = active ?d
        \<and> active (snd (apply_hooks sample_detours_results [(10, 11), (0, 99), (20, 21)] [(40, 41)] True ?d))
          = active ?d @ [(10, 11), (20, 21), (40, 41)]
        \<and> active (snd (hook_single_fn sample_detours_results ?d 30 31)) = active ?d"
    using hook_batch_atomic [of 30 31 "[(10, 11), (30, 31), (20, 21)]" True "[(40, 41)]"
        sample_detours_results ?d 30 31]
      hook_batch_atomic [of 30 31 "[(10, 11), (0, 99), (20, 21)]" True "[(40, 41)]"
        sample_detours_results ?d 30 31] a b c
    by (simp add: e sample_DetourAttach_result_def NO_ERROR_def)
  with a b c show ?thesis by simp
qed

section \<open>Start-up failures\<close>

lemma mbox_error_exits: "mbox_error msg = ([MessageBox (''error: '' @ msg)], Exits 1)"
  by (simp add: mbox_error_def mbox_def)

lemma setup_logging_outcomes:
  "setup_logging env = ([], Returns ())
   \<or> (\<exists>events shown. setup_logging env = (events @ [MessageBox shown], Exits 1)
         \<and> Called_o_CreateMutexA \<notin> set events \<and> Called_apply_hooks \<notin> set events)"
  by (simp add: setup_logging_def get_userprofile_path_def wstr_to_str_def mbox_error_exits)

text \<open>
  Claim C5, as amended.  On the first call, when the configuration load or the theme
  initialisation fails, a message box is shown and the process is then terminated with
  exit code 1: the call does not return, and neither \<open>apply_hooks\<close> nor the original
  \<open>CreateMutexA\<close> is called, so the host does not continue to run.  When logging was
  set up, the events of the call are the logged failure and the message box.
\<close>

theorem startup_failure_terminates:
  "\<not> init_entered \<and> (\<not> load_config env \<or> \<not> init_theme env)
   \<longrightarrow> (\<exists>events shown.
          hk_CreateMutexA env init_entered = (True, events @ [MessageBox shown], Exits 1)
          \<and> Called_o_CreateMutexA \<notin> set events \<and> Called_apply_hooks \<notin> set events)
       \<and> (setup_logging env = ([], Returns ())
            \<longrightarrow> (\<exists>logged shown.
                   hk_CreateMutexA env init_entered
                     = (True, [SPDLOG_ERROR logged, MessageBox shown], Exits 1)))"
proof (intro impI conjI; (elim conjE)?)
  assume h: "\<not> init_entered" "\<not> load_config env \<or> \<not> init_theme env"
  from setup_logging_outcomes [of env]
  show "\<exists>events shown.
          hk_CreateMutexA env init_entered = (True, events @ [MessageBox shown], Exits 1)
          \<and> Called_o_CreateMutexA \<notin> set events \<and> Called_apply_hooks \<notin> set events"
  proof (elim disjE exE conjE)
    assume s: "setup_logging env = ([], Returns ())"
    from h(2) show ?thesis
    proof
      assume "\<not> load_config env"
      with h(1) s have "hk_CreateMutexA env init_entered
          = (True, [SPDLOG_ERROR ''failed to load config'']
               @ [MessageBox (''error: '' @ ''failed to load config, check error log for more details'')],
             Exits 1)"
        by (simp add: hk_CreateMutexA_def mbox_error_exits)
      then show ?thesis by fastforce
    next
      assume a: "\<not> init_theme env"
      show ?thesis
      proof (cases "load_config env")
        case True
        with a h(1) s have "hk_CreateMutexA env init_entered
            = (True, [SPDLOG_ERROR ''failed to init theme'']
                 @ [MessageBox (''error: '' @ ''failed to init theme, check error log for more details'')],
               Exits 1)"
          by (simp add: hk_CreateMutexA_def mbox_error_exits)
        then show ?thesis by fastforce
      next
        case False
        with h(1) s have "hk_CreateMutexA env init_entered
            = (True, [SPDLOG_ERROR ''failed to load config'']
                 @ [MessageBox (''error: '' @ ''failed to load config, check error log for more details'')],
               Exits 1)"
          by (simp add: hk_CreateMutexA_def mbox_error_exits)
        then show ?thesis by fastforce
      qed
    qed
  next
    fix events shown
    assume s: "setup_logging env = (events @ [MessageBox shown], Exits 1)"
      and n: "Called_o_CreateMutexA \<notin> set events" "Called_apply_hooks \<notin> set events"
    from h(1) s have "hk_CreateMutexA env init_entered = (True, events @ [MessageBox shown], Exits 1)"
      by (simp add: hk_CreateMutexA_def)
    with n show ?thesis by blast
  qed
next
  assume "\<not> init_entered" "\<not> load_config env \<or> \<not> init_theme env"
    "setup_logging env = ([], Returns ())"
  then show "\<exists>logged shown. hk_CreateMutexA env init_entered
                     = (True, [SPDLOG_ERROR logged, MessageBox shown], Exits 1)"
    by (auto simp: hk_CreateMutexA_def mbox_error_exits)
qed

theorem startup_failure_terminates_witness:
  "hk_CreateMutexA \<lparr>SHGetKnownFolderPath_ok = True, WideCharToMultiByte_ok = True,
       rotating_logger_ok = True, load_config = True, init_theme = False,
       apply_hooks_result = True, o_CreateMutexA = 44\<rparr> False
     = (True, [SPDLOG_ERROR ''failed to init theme'',
               MessageBox ''error: failed to init theme, check error log for more details''],
        Exits 1)"
proof -
  let ?env = "\<lparr>SHGetKnownFolderPath_ok = True, WideCharToMultiByte_ok = True,
       rotating_logger_ok = True, load_config = True, init_theme = False,
       apply_hooks_result = True, o_CreateMutexA = 44\<rparr>"
  have s: "setup_logging ?env = ([], Returns ())"
    by (simp add: setup_logging_def get_userprofile_path_def wstr_to_str_def)
  have "\<exists>logged shown. hk_CreateMutexA ?env False
            = (True, [SPDLOG_ERROR logged, MessageBox shown], Exits 1)"
    using startup_failure_terminates [of False ?env] s by simp
  then show ?thesis
    by (auto simp: hk_CreateMutexA_def s mbox_error_exits)
qed

text \<open>
  The claim as stated says that the host keeps running on the original functions.
  With a configuration that fails to load the call ends in \<open>exit(1)\<close> after the
  message box; the \<open>return o_CreateMutexA(...)\<close> written after \<open>mbox_error\<close> is never
  reached.
\<close>

theorem startup_failure_counterexample:
  "hk_CreateMutexA \<lparr>SHGetKnownFolderPath_ok = True, WideCharToMultiByte_ok = True,
       rotating_logger_ok = True, load_config = False, init_theme = True,
       apply_hooks_result = True, o_CreateMutexA = 44\<rparr> False
     = (True, [SPDLOG_ERROR ''failed to load config'',
               MessageBox ''error: failed to load config, check error log for more details''],
        Exits 1)"
  by (simp add: hk_CreateMutexA_def setup_logging_def get_userprofile_path_def wstr_to_str_def
      mbox_error_exits)

section \<open>Interactive resize\<close>




lemma int32_in_range: "- (2 ^ 31) \<le> x \<Longrightarrow> x < 2 ^ 31 \<Longrightarrow> int32 x = x"
  by (simp add: int32_def)




section \<open>The dynamic hook slots are installed at most once\<close>

lemma late_hook_not_null:
  assumes "late_hook env slot entry d = (p, d')" "entry \<noteq> 0" "trampoline env entry \<noteq> 0"
  shows "p \<noteq> 0"
  using assms by (auto simp: late_hook_def split: prod.splits if_splits)

lemma patched_once_passed:
  "patched_once s \<Longrightarrow> patched_once (s\<lparr>actions := actions s @ [Passed_to_original]\<rparr>)"
  by (simp add: patched_once_def all_slots_def patch_count_def slot_ptr_def)

lemma hk_CoCreateInstance_patched_once:
  assumes "hk_CoCreateInstance env s = Inr (s', hr)" "patched_once s" "pointers_not_null env"
  shows "patched_once s'"
proof (cases "\<not> clsid_is_MMDeviceEnumerator env \<or> \<not> riid_is_IMMDeviceEnumerator env
         \<or> o_GetSessionEnumerator_ptr s \<noteq> 0")
  case True
  with assms(1) have "s' = s\<lparr>actions := actions s @ [Passed_to_original]\<rparr>"
    by (simp add: hk_CoCreateInstance_def)
  with assms(2) show ?thesis by (simp add: patched_once_passed)
next
  case False
  show ?thesis
  proof (cases "hresult_error env")
    case (Some code)
    with False assms(1) have "s' = s" by (simp add: hk_CoCreateInstance_def)
    with assms(2) show ?thesis by simp
  next
    case None
    obtain p d where lh:
      "late_hook env Slot_GetSessionEnumerator (vtable env 5) (detours_state s) = (p, d)"
      by (cases "late_hook env Slot_GetSessionEnumerator (vtable env 5) (detours_state s)")
    from late_hook_not_null [OF lh] assms(3) have p: "p \<noteq> 0"
      by (simp add: pointers_not_null_def)
    from False None lh assms(1)
    have s': "s' = s\<lparr>o_GetSessionEnumerator_ptr := p, detours_state := d,
        actions := actions s @ [Read_vtable 5, Patched Slot_GetSessionEnumerator,
                                Passed_to_original]\<rparr>"
      by (simp add: hk_CoCreateInstance_def)
    from False have z: "o_GetSessionEnumerator_ptr s = 0" by simp
    from assms(2) z p show ?thesis
      unfolding s' by (simp add: patched_once_def all_slots_def patch_count_def slot_ptr_def)
  qed
qed

lemma hk_GetSessionEnumerator_patched_once:
  assumes "hk_GetSessionEnumerator env s = Inr (s', hr)" "patched_once s" "pointers_not_null env"
  shows "patched_once s'"
proof (cases "o_GetSession_ptr s \<noteq> 0")
  case True
  with assms(1) have "s' = s\<lparr>actions := actions s @ [Passed_to_original]\<rparr>"
    by (simp add: hk_GetSessionEnumerator_def)
  with assms(2) show ?thesis by (simp add: patched_once_passed)
next
  case False
  show ?thesis
  proof (cases "hresult_error env")
    case (Some code)
    with False assms(1) show ?thesis by (simp add: hk_GetSessionEnumerator_def)
  next
    case None
    obtain p d where lh: "late_hook env Slot_GetSession (vtable env 4) (detours_state s) = (p, d)"
      by (cases "late_hook env Slot_GetSession (vtable env 4) (detours_state s)")
    from late_hook_not_null [OF lh] assms(3) have p: "p \<noteq> 0"
      by (simp add: pointers_not_null_def)
    from False None lh assms(1)
    have s': "s' = s\<lparr>o_GetSession_ptr := p, detours_state := d,
        actions := actions s @ [Read_vtable 4, Patched Slot_GetSession, Passed_to_original]\<rparr>"
      by (simp add: hk_GetSessionEnumerator_def)
    from False have z: "o_GetSession_ptr s = 0" by simp
    from assms(2) z p show ?thesis
      unfolding s' by (simp add: patched_once_def all_slots_def patch_count_def slot_ptr_def)
  qed
qed

lemma hk_GetSession_patched_once:
  assumes "hk_GetSession env s = Inr (s', hr)" "patched_once s" "pointers_not_null env"
  shows "patched_once s'"
proof (cases "o_GetProcessId_ptr s \<noteq> 0 \<or> o_IsSystemSoundsSession_ptr s \<noteq> 0")
  case True
  with assms(1) have "s' = s\<lparr>actions := actions s @ [Passed_to_original]\<rparr>"
    by (simp add: hk_GetSession_def)
  with assms(2) show ?thesis by (simp add: patched_once_passed)
next
  case False
  show ?thesis
  proof (cases "hresult_error env")
    case (Some code)
    with False assms(1) show ?thesis by (simp add: hk_GetSession_def)
  next
    case None
    obtain p1 d1 where lh1:
      "late_hook env Slot_GetProcessId (vtable env 14) (detours_state s) = (p1, d1)"
      by (cases "late_hook env Slot_GetProcessId (vtable env 14) (detours_state s)")
    obtain p2 d2 where lh2:
      "late_hook env Slot_IsSystemSoundsSession (vtable env 15) d1 = (p2, d2)"
      by (cases "late_hook env Slot_IsSystemSoundsSession (vtable env 15) d1")
    from late_hook_not_null [OF lh1] assms(3) have p1: "p1 \<noteq> 0"
      by (simp add: pointers_not_null_def)
    from late_hook_not_null [OF lh2] assms(3) have p2: "p2 \<noteq> 0"
      by (simp add: pointers_not_null_def)
    from False None lh1 lh2 assms(1)
    have s': "s' = s\<lparr>o_GetProcessId_ptr := p1, o_IsSystemSoundsSession_ptr := p2,
        detours_state := d2,
        actions := actions s @ [Read_vtable 14, Patched Slot_GetProcessId, Read_vtable 15,
                                Patched Slot_IsSystemSoundsSession, Passed_to_original]\<rparr>"
      by (simp add: hk_GetSession_def)
    from False have z: "o_GetProcessId_ptr s = 0" "o_IsSystemSoundsSession_ptr s = 0"
      by simp_all
    from assms(2) z p1 p2 show ?thesis
      unfolding s' by (simp add: patched_once_def all_slots_def patch_count_def slot_ptr_def)
  qed
qed

lemma audio_step_patched_once:
  assumes "audio_step c env s = Inr (s', hr)" "patched_once s" "pointers_not_null env"
  shows "patched_once s'"
  using assms
  by (cases c)
     (simp_all add: audio_step_def hk_CoCreateInstance_patched_once
        hk_GetSessionEnumerator_patched_once hk_GetSession_patched_once)

lemma audio_run_Cons_Inr:
  assumes "audio_run ((c, env) # calls) s = Inr s'"
  obtains s1 hr where "audio_step c env s = Inr (s1, hr)" "audio_run calls s1 = Inr s'"
  using assms by (auto split: sum.splits)

lemma audio_run_patched_once:
  "audio_run calls s = Inr s' \<Longrightarrow> patched_once s
     \<Longrightarrow> \<forall>(c, env) \<in> set calls. pointers_not_null env \<Longrightarrow> patched_once s'"
proof (induction calls arbitrary: s)
  case Nil
  then show ?case by simp
next
  case (Cons a calls)
  obtain c env where a: "a = (c, env)" by (cases a)
  from Cons.prems(1) obtain s1 hr where st: "audio_step c env s = Inr (s1, hr)"
    and r: "audio_run calls s1 = Inr s'"
    unfolding a by (rule audio_run_Cons_Inr)
  from Cons.prems(3) have pn: "pointers_not_null env" by (simp add: a)
  from audio_step_patched_once [OF st Cons.prems(2) pn] have "patched_once s1" .
  from Cons.IH [OF r this] Cons.prems(3) show ?case by simp
qed

lemma patched_once_at_load: "patched_once audio_hooks_at_load"
  by (simp add: patched_once_def patch_count_def audio_hooks_at_load_def slot_ptr_def
      all_slots_def)

lemma patched_once_count:
  "patched_once s \<Longrightarrow> count_list (actions s) (Patched k) \<le> 1"
  by (cases k) (simp_all add: patched_once_def all_slots_def patch_count_def)

lemma audio_step_slot_kept:
  assumes "audio_step c env s = Inr (s', hr)" "slot_ptr k s \<noteq> 0"
  shows "slot_ptr k s' = slot_ptr k s"
  using assms
  by (cases c; cases k)
     (auto simp: audio_step_def hk_CoCreateInstance_def hk_GetSessionEnumerator_def
        hk_GetSession_def slot_ptr_def split: if_splits option.splits prod.splits)

lemma audio_run_slot_kept:
  "audio_run calls s = Inr s' \<Longrightarrow> slot_ptr k s \<noteq> 0 \<Longrightarrow> slot_ptr k s' = slot_ptr k s"
proof (induction calls arbitrary: s)
  case Nil
  then show ?case by simp
next
  case (Cons a calls)
  obtain c env where a: "a = (c, env)" by (cases a)
  from Cons.prems(1) obtain s1 hr where st: "audio_step c env s = Inr (s1, hr)"
    and r: "audio_run calls s1 = Inr s'"
    unfolding a by (rule audio_run_Cons_Inr)
  from audio_step_slot_kept [OF st Cons.prems(2)] have e: "slot_ptr k s1 = slot_ptr k s" .
  with Cons.prems(2) have "slot_ptr k s1 \<noteq> 0" by simp
  from Cons.IH [OF r this] e show ?case by simp
qed

lemma sample_run_from_load: "audio_run sample_calls audio_hooks_at_load = Inr sample_installed"
  by (simp add: sample_calls_def sample_installed_def audio_step_def hk_CoCreateInstance_def
      hk_GetSessionEnumerator_def hk_GetSession_def late_hook_def hook_single_fn_def
      sample_com_results_def audio_hooks_at_load_def sample_vtable_def sample_trampoline_def
      sample_hk_address_def sample_detours_results_def DetourTransactionBegin_def
      DetourAttach_def DetourTransactionCommit_def sample_DetourAttach_result_def NO_ERROR_def
      S_OK_def Let_def)

lemma sample_pointers_not_null: "pointers_not_null sample_com_results"
  by (simp add: pointers_not_null_def sample_com_results_def sample_vtable_def
      sample_trampoline_def)

text \<open>
  Claim C7.  Each dynamic hook slot of the audio-session chain is installed at most
  once.  Once the slot that guards a hook is set (not null), a call of that hook only
  passes the call on to the original function: it reads no dispatch table, patches
  nothing, and leaves every slot as it was; this holds for \<open>hk_CoCreateInstance\<close>
  (guarded by \<open>o_GetSessionEnumerator\<close>), \<open>hk_GetSessionEnumerator\<close> (guarded by
  \<open>o_GetSession\<close>) and \<open>hk_GetSession\<close> (guarded by \<open>o_GetProcessId\<close> or
  \<open>o_IsSystemSoundsSession\<close>).  Over any sequence of calls of the three hooks that
  runs to its end, a slot that is set keeps its value, so it never goes back to
  unresolved; and, starting from the state at load time, with dispatch-table entries
  and trampolines that are not null, every slot is patched at most once.
\<close>

theorem dynamic_hooks_installed_once:
  "(o_GetSessionEnumerator_ptr s \<noteq> 0 \<longrightarrow>
      hk_CoCreateInstance env s
        = Inr (s\<lparr>actions := actions s @ [Passed_to_original]\<rparr>, original_result env))
   \<and> (o_GetSession_ptr s \<noteq> 0 \<longrightarrow>
      hk_GetSessionEnumerator env s
        = Inr (s\<lparr>actions := actions s @ [Passed_to_original]\<rparr>, original_result env))
   \<and> (o_GetProcessId_ptr s \<noteq> 0 \<or> o_IsSystemSoundsSession_ptr s \<noteq> 0 \<longrightarrow>
      hk_GetSession env s
        = Inr (s\<lparr>actions := actions s @ [Passed_to_original]\<rparr>, original_result env))
   \<and> (audio_run calls s = Inr s' \<and> slot_ptr k s \<noteq> 0 \<longrightarrow> slot_ptr k s' = slot_ptr k s)
   \<and> ((\<forall>(c, e) \<in> set calls. pointers_not_null e)
        \<and> audio_run calls audio_hooks_at_load = Inr s'' \<longrightarrow>
      count_list (actions s'') (Patched k) \<le> 1)"
proof (intro conjI impI)
  assume "o_GetSessionEnumerator_ptr s \<noteq> 0"
  then show "hk_CoCreateInstance env s
      = Inr (s\<lparr>actions := actions s @ [Passed_to_original]\<rparr>, original_result env)"
    by (simp add: hk_CoCreateInstance_def)
next
  assume "o_GetSession_ptr s \<noteq> 0"
  then show "hk_GetSessionEnumerator env s
      = Inr (s\<lparr>actions := actions s @ [Passed_to_original]\<rparr>, original_result env)"
    by (simp add: hk_GetSessionEnumerator_def)
next
  assume "o_GetProcessId_ptr s \<noteq> 0 \<or> o_IsSystemSoundsSession_ptr s \<noteq> 0"
  then show "hk_GetSession env s
      = Inr (s\<lparr>actions := actions s @ [Passed_to_original]\<rparr>, original_result env)"
    by (simp add: hk_GetSession_def)
next
  assume "audio_run calls s = Inr s' \<and> slot_ptr k s \<noteq> 0"
  then have "audio_run calls s = Inr s'" and "slot_ptr k s \<noteq> 0"
    by blast+
  then show "slot_ptr k s' = slot_ptr k s"
    by (rule audio_run_slot_kept)
next
  assume a: "(\<forall>(c, e) \<in> set calls. pointers_not_null e)
      \<and> audio_run calls audio_hooks_at_load = Inr s''"
  then have "patched_once s''"
    using audio_run_patched_once [of calls audio_hooks_at_load s''] patched_once_at_load
    by simp
  then show "count_list (actions s'') (Patched k) \<le> 1"
    by (rule patched_once_count)
qed

theorem dynamic_hooks_installed_once_witness:
  "pointers_not_null sample_com_results
   \<and> audio_run sample_calls audio_hooks_at_load = Inr sample_installed
   \<and> audio_run sample_calls sample_installed
       = Inr (sample_installed\<lparr>actions := actions sample_installed
                @ sample_passed\<rparr>)
   \<and> o_GetSessionEnumerator_ptr sample_installed \<noteq> 0
   \<and> o_GetSession_ptr sample_installed \<noteq> 0
   \<and> o_GetProcessId_ptr sample_installed \<noteq> 0
   \<and> slot_ptr Slot_GetSession sample_installed \<noteq> 0
   \<and> hk_CoCreateInstance sample_com_results sample_installed
       = Inr (sample_installed\<lparr>actions := actions sample_installed @ [Passed_to_original]\<rparr>,
              S_OK)
   \<and> hk_GetSessionEnumerator sample_com_results sample_installed
       = Inr (sample_installed\<lparr>actions := actions sample_installed @ [Passed_to_original]\<rparr>,
              S_OK)
   \<and> hk_GetSession sample_com_results sample_installed
       = Inr (sample_installed\<lparr>actions := actions sample_installed @ [Passed_to_original]\<rparr>,
              S_OK)
   \<and> slot_ptr Slot_GetSession
        (sample_installed\<lparr>actions := actions sample_installed
           @ sample_passed\<rparr>) = 97004
   \<and> count_list (actions sample_installed) (Patched Slot_GetSession) \<le> 1"
proof -
  have again: "audio_run sample_calls sample_installed
       = Inr (sample_installed\<lparr>actions := actions sample_installed
                @ sample_passed\<rparr>)"
    by (simp add: sample_calls_def sample_installed_def audio_step_def hk_CoCreateInstance_def
        hk_GetSessionEnumerator_def hk_GetSession_def sample_com_results_def S_OK_def
        sample_passed_def)
  have set: "o_GetSessionEnumerator_ptr sample_installed \<noteq> 0"
    "o_GetSession_ptr sample_installed \<noteq> 0"
    "o_GetProcessId_ptr sample_installed \<noteq> 0"
    "slot_ptr Slot_GetSession sample_installed = 97004"
    by (simp_all add: sample_installed_def slot_ptr_def)
  have all: "\<forall>(c, e) \<in> set sample_calls. pointers_not_null e"
    by (simp add: sample_calls_def sample_pointers_not_null)
  have res: "original_result sample_com_results = S_OK"
    by (simp add: sample_com_results_def)
  from dynamic_hooks_installed_once [where s = sample_installed and env = sample_com_results
      and calls = sample_calls and k = Slot_GetSession and s'' = sample_installed
      and s' = "sample_installed\<lparr>actions := actions sample_installed
                @ sample_passed\<rparr>"]
    again set all res sample_run_from_load sample_pointers_not_null
  show ?thesis by simp
qed


section \<open>Client-area query\<close>

text \<open>
  Claim C8.  A window whose parent has the main window's class and whose own class is
  one of the two tool-window classes is reported with the fixed rectangle of its class
  (100 by 386, or 153 by 413), whatever the original function would report; for every
  other window the hook returns exactly what the original function returns.
\<close>

theorem client_rect_fixed:
  "(GetAncestor os hWnd = Some parent_hwnd
      \<and> GetClassNameW os parent_hwnd = MAINWINDOW_CLASSNAME_UNICODE wm
      \<and> GetClassNameW os hWnd = WDB_CLASSNAME_UNICODE wm
    \<longrightarrow> hk_GetClientRect wm os hWnd lpRect
          = (True, \<lparr>rect_left = 0, rect_top = 0, rect_right = 100, rect_bottom = 386\<rparr>))
   \<and> (GetAncestor os hWnd = Some parent_hwnd
      \<and> GetClassNameW os parent_hwnd = MAINWINDOW_CLASSNAME_UNICODE wm
      \<and> GetClassNameW os hWnd \<noteq> WDB_CLASSNAME_UNICODE wm
      \<and> GetClassNameW os hWnd = COMPDENOISE_CLASSNAME_UNICODE wm
    \<longrightarrow> hk_GetClientRect wm os hWnd lpRect
          = (True, \<lparr>rect_left = 0, rect_top = 0, rect_right = 153, rect_bottom = 413\<rparr>))
   \<and> (\<not> (\<exists>parent_hwnd. GetAncestor os hWnd = Some parent_hwnd
            \<and> GetClassNameW os parent_hwnd = MAINWINDOW_CLASSNAME_UNICODE wm
            \<and> (GetClassNameW os hWnd = WDB_CLASSNAME_UNICODE wm
                \<or> GetClassNameW os hWnd = COMPDENOISE_CLASSNAME_UNICODE wm))
    \<longrightarrow> hk_GetClientRect wm os hWnd lpRect = o_GetClientRect os hWnd lpRect)"
  by (cases lpRect) (auto simp: hk_GetClientRect_def Let_def split: option.splits)

theorem client_rect_fixed_witness:
  "hk_GetClientRect sample_classnames sample_user32 2
       \<lparr>rect_left = 7, rect_top = 7, rect_right = 7, rect_bottom = 7\<rparr>
     = (True, \<lparr>rect_left = 0, rect_top = 0, rect_right = 100, rect_bottom = 386\<rparr>)
   \<and> hk_GetClientRect sample_classnames sample_user32 3
       \<lparr>rect_left = 7, rect_top = 7, rect_right = 7, rect_bottom = 7\<rparr>
     = (True, \<lparr>rect_left = 0, rect_top = 0, rect_right = 153, rect_bottom = 413\<rparr>)
   \<and> hk_GetClientRect sample_classnames sample_user32 4
       \<lparr>rect_left = 7, rect_top = 7, rect_right = 7, rect_bottom = 7\<rparr>
     = (True, \<lparr>rect_left = 0, rect_top = 0, rect_right = 50, rect_bottom = 193\<rparr>)
   \<and> hk_GetClientRect sample_classnames sample_user32 1
       \<lparr>rect_left = 7, rect_top = 7, rect_right = 7, rect_bottom = 7\<rparr>
     = (True, \<lparr>rect_left = 0, rect_top = 0, rect_right = 50, rect_bottom = 193\<rparr>)"
proof -
  let ?r = "\<lparr>rect_left = 7, rect_top = 7, rect_right = 7, rect_bottom = 7\<rparr>"
  have e: "GetAncestor sample_user32 = sample_GetAncestor"
    "GetClassNameW sample_user32 = sample_GetClassNameW"
    "o_GetClientRect sample_user32 = sample_o_GetClientRect"
    by (simp_all add: sample_user32_def)
  show ?thesis
    using client_rect_fixed [of sample_user32 2 1 sample_classnames ?r]
      client_rect_fixed [of sample_user32 3 1 sample_classnames ?r]
      client_rect_fixed [of sample_user32 4 1 sample_classnames ?r]
      client_rect_fixed [of sample_user32 1 1 sample_classnames ?r]
    by (simp add: e sample_GetAncestor_def sample_GetClassNameW_def sample_classnames_def
        sample_o_GetClientRect_def)
qed

section \<open>Per-session process id\<close>

lemma blacklist_loop_match:
  assumes "\<forall>t \<in> set pre. str_to_wstr (MultiByteToWideChar env) t \<noteq> None"
    and "str_to_wstr (MultiByteToWideChar env) s = Some w"
    and "lstrcmpiW env w app_name = 0"
  shows "blacklist_loop env (pre @ s # post) app_name pid = (S_FALSE, 0)"
  using assms by (induction pre) auto

lemma blacklist_loop_no_match:
  assumes "\<forall>t \<in> set bl. \<forall>w. str_to_wstr (MultiByteToWideChar env) t = Some w
             \<longrightarrow> lstrcmpiW env w app_name \<noteq> 0"
  shows "blacklist_loop env bl app_name pid = (S_OK, pid)"
  using assms by (induction bl) (auto split: option.splits)

text \<open>
  Claim C9, as amended.  For a session whose original query succeeds and whose image
  name is resolved: when the name equals a denylist entry under \<open>lstrcmpiW\<close> and
  every entry ahead of it converts to a wide string, the hook writes process id 0 and
  returns \<open>S_FALSE\<close>; when the name equals no entry, the id of the original query is
  kept and \<open>S_OK\<close> is returned.
\<close>

theorem process_id_denylist:
  "(o_GetProcessId env this_ptr pRetVal0 = (S_OK, pid)
      \<and> get_exe_image_name_for_pid env pid = Some app_name
      \<and> app_blacklist env = Some (pre @ s # post)
      \<and> (\<forall>t \<in> set pre. str_to_wstr (MultiByteToWideChar env) t \<noteq> None)
      \<and> str_to_wstr (MultiByteToWideChar env) s = Some w
      \<and> lstrcmpiW env w app_name = 0
    \<longrightarrow> hk_GetProcessId env this_ptr pRetVal0 = (S_FALSE, 0))
   \<and> (o_GetProcessId env this_ptr pRetVal0 = (S_OK, pid)
      \<and> get_exe_image_name_for_pid env pid = Some app_name
      \<and> app_blacklist env = Some bl
      \<and> (\<forall>t \<in> set bl. \<forall>w. str_to_wstr (MultiByteToWideChar env) t = Some w
             \<longrightarrow> lstrcmpiW env w app_name \<noteq> 0)
    \<longrightarrow> hk_GetProcessId env this_ptr pRetVal0 = (S_OK, pid))"
  by (auto simp: hk_GetProcessId_def blacklist_loop_match blacklist_loop_no_match)

lemma sample_fields:
  "o_GetProcessId (sample_audio_env bl) = sample_o_GetProcessId"
  "QueryFullProcessImageName (sample_audio_env bl) = sample_QueryFullProcessImageName"
  "PathFindFileName (sample_audio_env bl) = sample_PathFindFileName"
  "app_blacklist (sample_audio_env bl) = Some bl"
  "MultiByteToWideChar (sample_audio_env bl) = sample_MultiByteToWideChar"
  "lstrcmpiW (sample_audio_env bl) = sample_lstrcmpiW"
  by (simp_all add: sample_audio_env_def)

lemma sample_name:
  "get_exe_image_name_for_pid (sample_audio_env bl) 1234 = Some [0x46, 0x4F, 0x4F, 0x2E, 0x45, 0x58, 0x45]"
  by (simp add: get_exe_image_name_for_pid_def sample_fields sample_QueryFullProcessImageName_def
      sample_PathFindFileName_def sample_MultiByteToWideChar_def)

lemma sample_conv:
  "str_to_wstr sample_MultiByteToWideChar ''foo.exe'' = Some [0x66, 0x6F, 0x6F, 0x2E, 0x65, 0x78, 0x65]"
  "str_to_wstr sample_MultiByteToWideChar ''bar.exe'' = Some [0x62, 0x61, 0x72, 0x2E, 0x65, 0x78, 0x65]"
  "str_to_wstr sample_MultiByteToWideChar '''' = None"
  by (simp_all add: str_to_wstr_def sample_MultiByteToWideChar_def)

lemma sample_cmp:
  "sample_lstrcmpiW [0x66, 0x6F, 0x6F, 0x2E, 0x65, 0x78, 0x65] [0x46, 0x4F, 0x4F, 0x2E, 0x45, 0x58, 0x45] = 0"
  "sample_lstrcmpiW [0x62, 0x61, 0x72, 0x2E, 0x65, 0x78, 0x65] [0x46, 0x4F, 0x4F, 0x2E, 0x45, 0x58, 0x45] \<noteq> 0"
  by (simp_all add: sample_lstrcmpiW_def ascii_upper_def)

theorem process_id_denylist_witness:
  "hk_GetProcessId (sample_audio_env [''bar.exe'', ''foo.exe'']) 1 0 = (S_FALSE, 0)
   \<and> hk_GetProcessId (sample_audio_env [''bar.exe'']) 1 0 = (S_OK, 1234)"
proof -
  have a: "hk_GetProcessId (sample_audio_env [''bar.exe'', ''foo.exe'']) 1 0 = (S_FALSE, 0)"
    using process_id_denylist [of "sample_audio_env [''bar.exe'', ''foo.exe'']" 1 0 1234
        "[0x46, 0x4F, 0x4F, 0x2E, 0x45, 0x58, 0x45]" "[''bar.exe'']" "''foo.exe''" "[]"
        "[0x66, 0x6F, 0x6F, 0x2E, 0x65, 0x78, 0x65]"]
    by (simp add: sample_fields sample_name sample_conv sample_cmp sample_o_GetProcessId_def)
  have b: "hk_GetProcessId (sample_audio_env [''bar.exe'']) 1 0 = (S_OK, 1234)"
    using process_id_denylist [of "sample_audio_env [''bar.exe'']" 1 0 1234
        "[0x46, 0x4F, 0x4F, 0x2E, 0x45, 0x58, 0x45]" _ _ _ _ "[''bar.exe'']"]
    by (simp add: sample_fields sample_name sample_conv sample_cmp sample_o_GetProcessId_def)
  from a b show ?thesis by simp
qed

text \<open>
  The claim as stated fails when an entry ahead of the matching one cannot be
  converted: the loop leaves with \<open>S_OK\<close> at that entry.  With the denylist holding
  the empty string and then \<open>foo.exe\<close>, the session of \<open>FOO.EXE\<close> keeps its id 1234.
\<close>

theorem process_id_denylist_counterexample:
  "hk_GetProcessId (sample_audio_env ['''', ''foo.exe'']) 1 0 = (S_OK, 1234)
   \<and> get_exe_image_name_for_pid (sample_audio_env ['''', ''foo.exe'']) 1234
       = Some [0x46, 0x4F, 0x4F, 0x2E, 0x45, 0x58, 0x45]
   \<and> str_to_wstr sample_MultiByteToWideChar ''foo.exe''
       = Some [0x66, 0x6F, 0x6F, 0x2E, 0x65, 0x78, 0x65]
   \<and> sample_lstrcmpiW [0x66, 0x6F, 0x6F, 0x2E, 0x65, 0x78, 0x65]
         [0x46, 0x4F, 0x4F, 0x2E, 0x45, 0x58, 0x45] = 0"
  by (simp add: hk_GetProcessId_def sample_fields sample_name sample_conv sample_cmp
      sample_o_GetProcessId_def)

section \<open>Colour conversion: round trip\<close>

lemma lt16_cases:
  "(d::nat) < 16 \<Longrightarrow> d \<in> {0,1,2,3,4,5,6,7,8,9,10,11,12,13,14,15}"
  by simp arith

lemma hex_value_digit: "d < 16 \<Longrightarrow> hex_value (hex_digit_upper d) = Some d"
  using lt16_cases [of d] by (auto simp: hex_value_def hex_digit_upper_def)

lemma digit_not_space: "d < 16 \<Longrightarrow> \<not> isspace (hex_digit_upper d)"
  using lt16_cases [of d] by (auto simp: isspace_def hex_digit_upper_def)

lemma digit_not_sign:
  "d < 16 \<Longrightarrow> hex_digit_upper d \<noteq> CHR ''-'' \<and> hex_digit_upper d \<noteq> CHR ''+''"
  using lt16_cases [of d] by (auto simp: hex_digit_upper_def)

lemma digit_not_x:
  "d < 16 \<Longrightarrow> hex_digit_upper d \<noteq> CHR ''x'' \<and> hex_digit_upper d \<noteq> CHR ''X''"
  using lt16_cases [of d] by (auto simp: hex_digit_upper_def)

lemma hex2:
  "setw_setfill 2 CHR ''0'' (hex_of_nat (unat (x::byte))) =
     [hex_digit_upper (unat x div 16), hex_digit_upper (unat x mod 16)]"
proof -
  have lt: "unat x < 256" using unsigned_less [of x] by simp
  show ?thesis
  proof (cases "unat x < 16")
    case True
    then show ?thesis
      by (simp add: hex_of_nat.simps [of "unat x"] setw_setfill_def hex_digit_upper_def)
  next
    case False
    have "unat x div 16 < 16" using lt by simp
    then show ?thesis using False
      by (simp add: hex_of_nat.simps [of "unat x"] hex_of_nat.simps [of "unat x div 16"]
          setw_setfill_def)
  qed
qed

lemma stoul16_six:
  assumes "d1 < 16" "d2 < 16" "d3 < 16" "d4 < 16" "d5 < 16" "d6 < 16"
  shows "stoul16 [hex_digit_upper d1, hex_digit_upper d2, hex_digit_upper d3,
                  hex_digit_upper d4, hex_digit_upper d5, hex_digit_upper d6]
         = Some (word_of_int (((((int d1 * 16 + int d2) * 16 + int d3) * 16 + int d4) * 16
                               + int d5) * 16 + int d6))"
proof -
  have v: "((((int d1 * 16 + int d2) * 16 + int d3) * 16 + int d4) * 16 + int d5) * 16 + int d6
           < 4294967296"
    using assms by (simp add: algebra_simps)
  show ?thesis
    using assms v
    by (simp add: stoul16_def strip_sign_def strip_0x_def digit_not_space digit_not_sign
        digit_not_x is_xdigit_def hex_value_digit digits_value_def)
qed

lemma and_ff: "(w :: 32 word) AND 0xFF = take_bit 8 w"
proof -
  have "(0xFF :: 32 word) = mask 8" by (simp add: mask_eq_exp_minus_1)
  then show ?thesis by (simp add: take_bit_eq_mask)
qed

lemma byte_of_shift:
  "unat (ucast (drop_bit k (w :: 32 word) AND 0xFF) :: byte) = unat w div 2 ^ k mod 256"
proof -
  have t: "take_bit 32 (unat w) = unat w"
    using unsigned_less [of w, where 'a = nat] by (intro take_bit_nat_eq_self) simp
  have "unat (ucast (drop_bit k w AND 0xFF) :: byte)
        = take_bit 8 (take_bit 8 (drop_bit k (unat w)))"
    by (simp only: and_ff unsigned_ucast_eq unsigned_take_bit_eq unsigned_drop_bit_eq)
       (simp add: t)
  then show ?thesis by (simp add: drop_bit_eq_div take_bit_eq_mod)
qed

lemma byte_of_low:
  "unat (ucast ((w :: 32 word) AND 0xFF) :: byte) = unat w mod 256"
  using byte_of_shift [of 0 w] by simp

lemma unat_packed:
  fixes r g b :: byte
  shows "unat (word_of_int ((int (unat r) * 256 + int (unat g)) * 256 + int (unat b)) :: 32 word)
         = (unat r * 256 + unat g) * 256 + unat b"
proof -
  have "unat r < 256" "unat g < 256" "unat b < 256"
    using unsigned_less [of r] unsigned_less [of g] unsigned_less [of b] by simp_all
  then have lt: "(unat r * 256 + unat g) * 256 + unat b < 2 ^ 32" by simp
  have "(word_of_int ((int (unat r) * 256 + int (unat g)) * 256 + int (unat b)) :: 32 word)
        = word_of_nat ((unat r * 256 + unat g) * 256 + unat b)"
    by simp
  then show ?thesis using lt by (simp add: unat_of_nat del: of_nat_add of_nat_mult)
qed

lemma packed_div_mod:
  fixes R G B :: nat
  assumes "R < 256" "G < 256" "B < 256"
  shows "((R * 256 + G) * 256 + B) div 65536 mod 256 = R"
    and "((R * 256 + G) * 256 + B) div 256 mod 256 = G"
    and "((R * 256 + G) * 256 + B) mod 256 = B"
proof -
  have a: "((R * 256 + G) * 256 + B) div 256 = R * 256 + G"
    using assms by simp
  have b: "((R * 256 + G) * 256 + B) div 65536 = R"
  proof -
    have "((R * 256 + G) * 256 + B) div 65536 = ((R * 256 + G) * 256 + B) div 256 div 256"
      by (simp add: div_mult2_eq [symmetric])
    also have "\<dots> = R" using assms by (simp add: a)
    finally show ?thesis .
  qed
  show "((R * 256 + G) * 256 + B) div 65536 mod 256 = R"
    using assms by (simp only: b mod_less)
  show "((R * 256 + G) * 256 + B) div 256 mod 256 = G"
    using assms by (simp only: a) simp
  show "((R * 256 + G) * 256 + B) mod 256 = B"
    using assms by (simp only: mod_mult_self3 mod_less)
qed

lemma unpack_bytes:
  fixes r g b :: byte
  defines "v \<equiv> (word_of_int ((int (unat r) * 256 + int (unat g)) * 256 + int (unat b)) :: 32 word)"
  shows "(ucast (drop_bit 16 v AND 0xFF) :: byte) = r"
    and "(ucast (drop_bit 8 v AND 0xFF) :: byte) = g"
    and "(ucast (v AND 0xFF) :: byte) = b"
proof -
  have lt: "unat r < 256" "unat g < 256" "unat b < 256"
    using unsigned_less [of r] unsigned_less [of g] unsigned_less [of b] by simp_all
  have power16: "(2::nat) ^ 16 = 65536" and power8: "(2::nat) ^ 8 = 256" by simp_all
  have uv: "unat v = (unat r * 256 + unat g) * 256 + unat b"
    unfolding v_def by (rule unat_packed)
  have "unat (ucast (drop_bit 16 v AND 0xFF) :: byte) = unat r"
    using byte_of_shift [of 16 v] by (simp only: uv) (simp only: packed_div_mod [OF lt] power16)
  then show "(ucast (drop_bit 16 v AND 0xFF) :: byte) = r"
    by (rule unsigned_word_eqI)
  have "unat (ucast (drop_bit 8 v AND 0xFF) :: byte) = unat g"
    using byte_of_shift [of 8 v] by (simp only: uv) (simp only: packed_div_mod [OF lt] power8)
  then show "(ucast (drop_bit 8 v AND 0xFF) :: byte) = g"
    by (rule unsigned_word_eqI)
  have "unat (ucast (v AND 0xFF) :: byte) = unat b"
    by (simp only: byte_of_low uv packed_div_mod [OF lt])
  then show "(ucast (v AND 0xFF) :: byte) = b"
    by (rule unsigned_word_eqI)
qed

lemma nibbles: "int (n div 16) * 16 + int (n mod 16) = int n"
proof -
  have "int (n div 16 * 16 + n mod 16) = int n" by simp
  then show ?thesis by (simp only: of_nat_add of_nat_mult of_nat_numeral)
qed

lemma regroup:
  fixes a1 a2 b1 b2 c1 c2 :: int
  shows "((((a1 * 16 + a2) * 16 + b1) * 16 + b2) * 16 + c1) * 16 + c2
         = ((a1 * 16 + a2) * 256 + (b1 * 16 + b2)) * 256 + (c1 * 16 + c2)"
  by (simp add: algebra_simps)

lemma colorref_to_hex_digits:
  "colorref_to_hex c = CHR ''#'' #
      [hex_digit_upper (unat (GetRValue c) div 16), hex_digit_upper (unat (GetRValue c) mod 16),
       hex_digit_upper (unat (GetGValue c) div 16), hex_digit_upper (unat (GetGValue c) mod 16),
       hex_digit_upper (unat (GetBValue c) div 16), hex_digit_upper (unat (GetBValue c) mod 16)]"
  by (simp only: colorref_to_hex_def hex2 append_Cons append_Nil)

lemma byte_nibble_bounds: "unat (x :: byte) div 16 < 16" "unat x mod 16 < 16"
  using unsigned_less [of x, where 'a = nat] by simp_all

lemma hex_roundtrip_bytes:
  "hex_to_colorref (colorref_to_hex c) = Some (RGB (GetRValue c) (GetGValue c) (GetBValue c))"
proof -
  have st: "stoul16 (tl (colorref_to_hex c)) =
      Some (word_of_int ((int (unat (GetRValue c)) * 256 + int (unat (GetGValue c))) * 256
                         + int (unat (GetBValue c))))"
    by (simp only: colorref_to_hex_digits list.sel
          stoul16_six [OF byte_nibble_bounds byte_nibble_bounds byte_nibble_bounds] regroup)
       (simp only: nibbles)
  have len: "length (tl (colorref_to_hex c)) = 6" "colorref_to_hex c \<noteq> []"
    "hd (colorref_to_hex c) = CHR ''#''"
    by (simp_all only: colorref_to_hex_digits list.sel list.size length_Cons) simp_all
  show ?thesis
    unfolding hex_to_colorref_def
    by (simp only: len st if_True if_False simp_thms option.case Let_def unpack_bytes)
qed

lemma rgb_get:
  "GetRValue (RGB r g b) = r" "GetGValue (RGB r g b) = g" "GetBValue (RGB r g b) = b"
  unfolding GetRValue_def GetGValue_def GetBValue_def RGB_def
  by (rule bit_word_eqI; auto simp: bit_simps dest: bit_imp_le_length)+

lemma rgb_of_get: "RGB (GetRValue c) (GetGValue c) (GetBValue c) = c AND 0x00FFFFFF"
proof -
  have e: "(0xFFFFFF :: 32 word) = mask 24" by (simp add: mask_eq_exp_minus_1)
  show ?thesis
    unfolding GetRValue_def GetGValue_def GetBValue_def RGB_def e
    apply (intro bit_word_eqI)
    subgoal for n
      by (cases "n < 8"; cases "n < 16"; cases "n < 24") (auto simp: bit_simps)
    done
qed

text \<open>
  For an arbitrary \<open>DWORD\<close> the round trip keeps the three colour bytes and clears the
  top byte, which \<open>colorref_to_hex\<close> never prints.
\<close>

lemma hex_roundtrip_low24:
  "hex_to_colorref (colorref_to_hex c) = Some (c AND 0x00FFFFFF)"
  by (simp only: hex_roundtrip_bytes rgb_of_get)

lemma hex_to_colorref_hash:
  "hex = [] \<or> hd hex \<noteq> CHR ''#'' \<Longrightarrow> hex_to_colorref (CHR ''#'' # hex) = hex_to_colorref hex"
  by (auto simp: hex_to_colorref_def)

lemma hex_to_colorref_length:
  "length (if hex \<noteq> [] \<and> hd hex = CHR ''#'' then tl hex else hex) \<noteq> 6
   \<Longrightarrow> hex_to_colorref hex = None"
  by (auto simp: hex_to_colorref_def split: if_splits)

text \<open>
  Claim C10.  A colour built from red, green and blue bytes survives the conversion to a
  hex string and back; the parser gives the same answer with and without the leading
  \<open>#\<close>; and every string whose length after the optional \<open>#\<close> is not six is refused.
\<close>

theorem colorref_hex_roundtrip:
  "hex_to_colorref (colorref_to_hex (RGB r g b)) = Some (RGB r g b)
   \<and> (hex = [] \<or> hd hex \<noteq> CHR ''#'' \<longrightarrow> hex_to_colorref (CHR ''#'' # hex) = hex_to_colorref hex)
   \<and> (length (if hex \<noteq> [] \<and> hd hex = CHR ''#'' then tl hex else hex) \<noteq> 6
        \<longrightarrow> hex_to_colorref hex = None)"
proof (intro conjI impI)
  show "hex_to_colorref (colorref_to_hex (RGB r g b)) = Some (RGB r g b)"
    by (simp only: hex_roundtrip_bytes rgb_get)
next
  assume "hex = [] \<or> hd hex \<noteq> CHR ''#''"
  then show "hex_to_colorref (CHR ''#'' # hex) = hex_to_colorref hex"
    by (rule hex_to_colorref_hash)
next
  assume "length (if hex \<noteq> [] \<and> hd hex = CHR ''#'' then tl hex else hex) \<noteq> 6"
  then show "hex_to_colorref hex = None"
    by (rule hex_to_colorref_length)
qed

theorem colorref_hex_roundtrip_witness:
  "hex_to_colorref (colorref_to_hex (RGB 0xA1 0xB2 0xC3)) = Some (RGB 0xA1 0xB2 0xC3)
   \<and> hex_to_colorref ''#0a0B0c'' = hex_to_colorref ''0a0B0c''
   \<and> hex_to_colorref ''0a0B0c'' = Some 0x0C0B0A
   \<and> hex_to_colorref ''#12345'' = None"
proof -
  have v: "hex_to_colorref ''0a0B0c'' = Some 0x0C0B0A"
    by (simp add: hex_to_colorref_def stoul16_def strip_sign_def strip_0x_def isspace_def
        is_xdigit_def hex_value_def digits_value_def RGB_def)
  show ?thesis
    using colorref_hex_roundtrip [of "0xA1" "0xB2" "0xC3" "''0a0B0c''"]
      colorref_hex_roundtrip [of "0xA1" "0xB2" "0xC3" "''#12345''"] v
    by simp
qed


end
